theory Spec2Isabelle
  imports Complex_Main "HOL-Library.Sublist"
begin

section \<open>Python values shared by the modules\<close>

text \<open>
  Exceptions are values: a function that can raise returns \<open>py_exception + 'a\<close>, with
  \<open>Inl\<close> for the exception. \<open>ApiError\<close> stands for any exception raised by a call
  to the Gmail or Gemini client.
\<close>

datatype py_exception =
    ApiError
  | FileNotFoundError
  | ValueError
  | ZeroDivisionError
  | IndexError
  | TypeError
  | AttributeError
  | JSONDecodeError

text \<open>
  Strings are lists of 8-bit characters; the model covers ASCII text. \<open>is_space\<close> is
  \<^verbatim>\<open>str.isspace\<close> on ASCII, which is also what \<^verbatim>\<open>\s\<close> matches and what
  \<^verbatim>\<open>str.split()\<close> and \<^verbatim>\<open>str.strip()\<close> cut at.
\<close>

definition is_space :: "char \<Rightarrow> bool" where
  "is_space c \<longleftrightarrow>
     c \<in> set [CHR 0x09, CHR 0x0A, CHR 0x0B, CHR 0x0C, CHR 0x0D,
                CHR 0x1C, CHR 0x1D, CHR 0x1E, CHR 0x1F, CHR 0x20]"

definition lower_char :: "char \<Rightarrow> char" where
  "lower_char c =
     (let n = (of_char c :: nat) in if 65 \<le> n \<and> n \<le> 90 then char_of (n + 32) else c)"

definition py_lower :: "string \<Rightarrow> string" where
  "py_lower s = map lower_char s"

definition py_strip :: "string \<Rightarrow> string" where
  "py_strip s = rev (dropWhile is_space (rev (dropWhile is_space s)))"

text \<open>\<^verbatim>\<open>needle in haystack\<close> on strings: a contiguous occurrence.\<close>

fun str_in :: "string \<Rightarrow> string \<Rightarrow> bool" where
  "str_in needle [] = (needle = [])"
| "str_in needle (c # cs) = (prefix needle (c # cs) \<or> str_in needle cs)"

text \<open>\<^verbatim>\<open>s.split()\<close>: the maximal runs of non-whitespace characters, in order.\<close>

fun split_ws :: "string \<Rightarrow> string \<Rightarrow> string list" where
  "split_ws w [] = (if w = [] then [] else [w])"
| "split_ws w (c # cs) =
     (if is_space c then (if w = [] then split_ws [] cs else w # split_ws [] cs)
      else split_ws (w @ [c]) cs)"

definition py_split :: "string \<Rightarrow> string list" where
  "py_split s = split_ws [] s"

section \<open>The Gmail service (email_service.py, EmailService)\<close>

subsection \<open>Messages\<close>

text \<open>
  A message part as the Gmail API returns it: its MIME type, the text of
  \<^verbatim>\<open>body.data\<close> (already base64-decoded; \<open>None\<close> when the key is absent) and its
  sub-parts. A message carries its id, its \<^verbatim>\<open>internalDate\<close> in milliseconds, its
  headers as (name, value) pairs and its payload.
\<close>

datatype part = Part (mimeType: string) (body_data: "string option") (parts: "part list")

record message =
  msg_id :: string
  internalDate :: int
  headers :: "(string \<times> string) list"
  payload :: part

text \<open>
  The two read calls of the API, as the answers the mailbox gives during one check:
  \<^verbatim>\<open>users().threads().get(id=...)\<close> (the thread's messages, in the order the API lists
  them) and \<^verbatim>\<open>users().messages().get(id=...)\<close>.
\<close>

record gmail =
  threads_get :: "string \<Rightarrow> py_exception + message list"
  messages_get :: "string \<Rightarrow> py_exception + message"

definition get_thread_messages :: "gmail \<Rightarrow> string \<Rightarrow> py_exception + message list" where
  "get_thread_messages gm thread_id = threads_get gm thread_id"

text \<open>
  \<^verbatim>\<open>messages.sort(key=lambda m: int(m.get('internalDate', 0)), reverse=True)\<close>:
  Python's sort is stable, also with \<^verbatim>\<open>reverse=True\<close>.
\<close>

definition sort_newest_first :: "message list \<Rightarrow> message list" where
  "sort_newest_first messages = sort_key (\<lambda>m. - internalDate m) messages"

definition get_latest_message ::
  "gmail \<Rightarrow> string \<Rightarrow> string list option \<Rightarrow> py_exception + message option" where
  "get_latest_message gm thread_id exclude_message_ids =
     (let excl = (case exclude_message_ids of None \<Rightarrow> [] | Some e \<Rightarrow> e) in
      case get_thread_messages gm thread_id of
        Inl e \<Rightarrow> Inl e
      | Inr messages \<Rightarrow>
          Inr (find (\<lambda>m. msg_id m \<notin> set excl) (sort_newest_first messages)))"

subsection \<open>Extracting the text of a message\<close>

text \<open>
  \<^verbatim>\<open>re.sub('<[^<]+?>', '', html)\<close>: a tag is \<open><\<close>, at least one character other
  than \<open><\<close>, and the first \<open>>\<close> after that; \<open>tag_close\<close> looks for that \<open>>\<close>
  once one character has been read.
\<close>

fun tag_close :: "string \<Rightarrow> string option" where
  "tag_close [] = None"
| "tag_close (c # cs) =
     (if c = CHR ''>'' then Some cs else if c = CHR ''<'' then None else tag_close cs)"

lemma tag_close_length: "tag_close cs = Some r \<Longrightarrow> length r < length cs"
  by (induction cs) (auto split: if_splits)

function strip_tags :: "string \<Rightarrow> string" where
  "strip_tags [] = []"
| "strip_tags (c # cs) =
     (if c = CHR ''<'' then
        (case cs of
           [] \<Rightarrow> [c]
         | x # r \<Rightarrow>
             (if x = CHR ''<'' then c # strip_tags cs
              else (case tag_close r of
                      Some rest \<Rightarrow> strip_tags rest
                    | None \<Rightarrow> c # strip_tags cs)))
      else c # strip_tags cs)"
  by pat_completeness auto
termination
  by (relation "measure length") (auto dest: tag_close_length)

definition has_data :: "string option \<Rightarrow> bool" where
  "has_data d = (case d of None \<Rightarrow> False | Some t \<Rightarrow> t \<noteq> [])"

text \<open>
  \<^verbatim>\<open>extract_from_part\<close>: a plain-text part with data gives its text, an HTML part
  with data gives its text without tags (even when nothing is left), and any other part
  gives the first non-empty text among its sub-parts, or the empty string.
\<close>

fun extract_from_part :: "part \<Rightarrow> string"
  and extract_from_parts :: "part list \<Rightarrow> string" where
  "extract_from_part (Part mt d ps) =
     (if mt = ''text/plain'' \<and> has_data d then the d
      else if mt = ''text/html'' \<and> has_data d then strip_tags (the d)
      else extract_from_parts ps)"
| "extract_from_parts [] = []"
| "extract_from_parts (subpart # ps) =
     (let text = extract_from_part subpart in
      if text \<noteq> [] then text else extract_from_parts ps)"

definition extract_message_text :: "message \<Rightarrow> string" where
  "extract_message_text m = extract_from_part (payload m)"

subsection \<open>Cleaning a reply\<close>

fun split_lines :: "string \<Rightarrow> string list" where
  "split_lines [] = [[]]"
| "split_lines (c # cs) =
     (if c = CHR 0x0A then [] # split_lines cs
      else (case split_lines cs of l # ls \<Rightarrow> (c # l) # ls | [] \<Rightarrow> [[c]]))"

fun join_lines :: "string list \<Rightarrow> string" where
  "join_lines [] = []"
| "join_lines [l] = l"
| "join_lines (l # ls) = l @ CHR 0x0A # join_lines ls"

text \<open>
  \<^verbatim>\<open>re.sub(r'^>.*$', '', text, flags=re.MULTILINE)\<close>: every line that starts with
  \<open>>\<close> becomes the empty line.
\<close>

definition remove_quoted :: "string \<Rightarrow> string" where
  "remove_quoted s =
     join_lines (map (\<lambda>l. if prefix ''>'' l then [] else l) (split_lines s))"

text \<open>
  \<^verbatim>\<open>re.sub(r'On .+ wrote:.*$', '', text, flags=re.MULTILINE | re.DOTALL)\<close>: with
  DOTALL the match runs from the first \<open>On \<close> that has \<open> wrote:\<close> at least one
  character later, to the end of the text.
\<close>

fun strip_attribution :: "string \<Rightarrow> string" where
  "strip_attribution [] = []"
| "strip_attribution (c # cs) =
     (if prefix ''On '' (c # cs) \<and> str_in '' wrote:'' (drop 4 (c # cs)) then []
      else c # strip_attribution cs)"

text \<open>
  \<^verbatim>\<open>re.sub(r'\n\s*\n', '\n', text)\<close>: a newline, and the whitespace after it up to
  its last newline, become one newline.
\<close>

fun collapse_blank :: "string \<Rightarrow> string" where
  "collapse_blank [] = []"
| "collapse_blank (c # cs) =
     (let w = takeWhile is_space cs;
          tail = takeWhile (\<lambda>x. x \<noteq> CHR 0x0A) (rev w)
      in if c = CHR 0x0A \<and> CHR 0x0A \<in> set w
         then CHR 0x0A # collapse_blank (drop (length w - length tail) cs)
         else c # collapse_blank cs)"

definition clean_response :: "string \<Rightarrow> string" where
  "clean_response text =
     py_strip (collapse_blank (strip_attribution (remove_quoted text)))"

subsection \<open>The response check\<close>

definition from_header :: "message \<Rightarrow> string" where
  "from_header m =
     (case find (\<lambda>h. py_lower (fst h) = ''from'') (headers m) of
        Some h \<Rightarrow> snd h
      | None \<Rightarrow> [])"

definition feedback_keywords :: "string list" where
  "feedback_keywords = [''score:'', ''your score:'', ''feedback:'', ''missing points:'']"

definition looks_like_feedback :: "message \<Rightarrow> bool" where
  "looks_like_feedback m =
     (let response_text_preview = py_lower (take 200 (extract_message_text m)) in
      list_ex (\<lambda>keyword. str_in keyword response_text_preview) feedback_keywords)"

text \<open>
  The quote check fetches the question that was sent and compares its first ten words
  with the words of the reply. \<^verbatim>\<open>overlap > 0.8\<close> on the float quotient of two
  integers with a denominator of at most ten holds exactly when five times the numerator
  exceeds four times the denominator. Any exception in the check is swallowed
  (\<^verbatim>\<open>except: pass\<close>), and the reply is then not a quote.
\<close>

definition quotes_question :: "gmail \<Rightarrow> string \<Rightarrow> string \<Rightarrow> bool" where
  "quotes_question gm sent_message_id response_text =
     (if sent_message_id = [] then False
      else case messages_get gm sent_message_id of
        Inl e \<Rightarrow> False
      | Inr sent_msg \<Rightarrow>
          (let question_text = extract_message_text sent_msg in
           if question_text \<noteq> [] \<and> length question_text > 10 then
             (let question_words = remdups (take 10 (py_split (py_lower question_text)));
                  response_words = py_split (py_lower response_text);
                  common = length (filter (\<lambda>w. w \<in> set response_words) question_words)
              in 5 * common > 4 * max (length question_words) 1)
           else False))"

text \<open>
  The body of the loop over the thread's messages: \<open>None\<close> where the source says
  \<^verbatim>\<open>continue\<close>, the cleaned text where it returns.
\<close>

definition buffer_ms :: int where
  "buffer_ms = 2000"

definition accept_message ::
  "gmail \<Rightarrow> string \<Rightarrow> string \<Rightarrow> int \<Rightarrow> string list \<Rightarrow> message \<Rightarrow> string option" where
  "accept_message gm target_email sent_message_id sent_message_timestamp exclude_message_ids m =
     (let time_diff = internalDate m - sent_message_timestamp in
      if msg_id m \<in> set exclude_message_ids then None
      else if time_diff \<le> buffer_ms then None
      else if \<not> str_in (py_lower target_email) (py_lower (from_header m)) then None
      else if time_diff < 10000 then None
      else if looks_like_feedback m then None
      else (let response_text = clean_response (extract_message_text m) in
            if length response_text < 3 then None
            else if quotes_question gm sent_message_id response_text then None
            else Some response_text))"

fun first_valid_response ::
  "gmail \<Rightarrow> string \<Rightarrow> string \<Rightarrow> int \<Rightarrow> string list \<Rightarrow> message list \<Rightarrow> string option" where
  "first_valid_response gm target sid ts excl [] = None"
| "first_valid_response gm target sid ts excl (m # messages) =
     (case accept_message gm target sid ts excl m of
        Some response_text \<Rightarrow> Some response_text
      | None \<Rightarrow> first_valid_response gm target sid ts excl messages)"

text \<open>
  \<^verbatim>\<open>EmailService.check_for_response\<close>. The sent message's id joins the exclusion
  list when it is not in it; a missing timestamp is read from the sent message, and is 0
  when that fails; an exception of the thread read reaches the caller.
\<close>

definition exclude_with_sent :: "string list option \<Rightarrow> string \<Rightarrow> string list" where
  "exclude_with_sent exclude_message_ids sent_message_id =
     (let excl = (case exclude_message_ids of None \<Rightarrow> [] | Some e \<Rightarrow> e) in
      if sent_message_id \<notin> set excl then excl @ [sent_message_id] else excl)"

definition resolve_sent_timestamp :: "gmail \<Rightarrow> string \<Rightarrow> int option \<Rightarrow> int" where
  "resolve_sent_timestamp gm sent_message_id sent_message_timestamp =
     (case sent_message_timestamp of
        Some t \<Rightarrow> t
      | None \<Rightarrow>
          (case messages_get gm sent_message_id of
             Inr sent_msg \<Rightarrow> internalDate sent_msg
           | Inl e \<Rightarrow> 0))"

definition check_for_response ::
  "gmail \<Rightarrow> string \<Rightarrow> string \<Rightarrow> string \<Rightarrow> int option \<Rightarrow> string list option
     \<Rightarrow> py_exception + string option" where
  "check_for_response gm target_email thread_id sent_message_id sent_message_timestamp
       exclude_message_ids =
     (let excl = exclude_with_sent exclude_message_ids sent_message_id;
          ts = resolve_sent_timestamp gm sent_message_id sent_message_timestamp
      in case get_thread_messages gm thread_id of
           Inl e \<Rightarrow> Inl e
         | Inr messages \<Rightarrow>
             Inr (first_valid_response gm target_email sent_message_id ts excl messages))"

section \<open>The grading service (grading_service.py, GradingService)\<close>

subsection \<open>Parsed JSON and Python's operations on it\<close>

text \<open>
  What \<^verbatim>\<open>json.loads\<close> can return: \<^verbatim>\<open>None\<close>, a bool, a number (integers only
  here), a string, a list or a dictionary (its items in insertion order, keys unique).
\<close>

datatype json =
    JNull
  | JBool bool
  | JNum int
  | JStr string
  | JArr "json list"
  | JObj "(string \<times> json) list"

text \<open>
  \<^verbatim>\<open>key in result\<close>: key membership for a dictionary, element membership for a list,
  substring for a string, and a TypeError for \<^verbatim>\<open>None\<close>, a bool or a number.
\<close>

definition py_contains :: "string \<Rightarrow> json \<Rightarrow> py_exception + bool" where
  "py_contains key result =
     (case result of
        JObj items \<Rightarrow> Inr (key \<in> set (map fst items))
      | JArr elems \<Rightarrow> Inr (JStr key \<in> set elems)
      | JStr text \<Rightarrow> Inr (str_in key text)
      | JNull \<Rightarrow> Inl TypeError
      | JBool b \<Rightarrow> Inl TypeError
      | JNum n \<Rightarrow> Inl TypeError)"

fun dict_set :: "(string \<times> json) list \<Rightarrow> string \<Rightarrow> json \<Rightarrow> (string \<times> json) list" where
  "dict_set [] key v = [(key, v)]"
| "dict_set ((k, x) # items) key v =
     (if k = key then (k, v) # items else (k, x) # dict_set items key v)"

text \<open>
  \<^verbatim>\<open>result[key] = v\<close> with a string key: an update for a dictionary, a TypeError for
  every other value (a list wants an integer index, a string is immutable).
\<close>

definition py_setitem :: "json \<Rightarrow> string \<Rightarrow> json \<Rightarrow> py_exception + json" where
  "py_setitem result key v =
     (case result of
        JObj items \<Rightarrow> Inr (JObj (dict_set items key v))
      | JNull \<Rightarrow> Inl TypeError
      | JBool b \<Rightarrow> Inl TypeError
      | JNum n \<Rightarrow> Inl TypeError
      | JStr text \<Rightarrow> Inl TypeError
      | JArr elems \<Rightarrow> Inl TypeError)"

text \<open>\<^verbatim>\<open>if key not in result: result[key] = v\<close>.\<close>

definition fill_default :: "string \<Rightarrow> json \<Rightarrow> json \<Rightarrow> py_exception + json" where
  "fill_default key v result =
     (case py_contains key result of
        Inl e \<Rightarrow> Inl e
      | Inr True \<Rightarrow> Inr result
      | Inr False \<Rightarrow> py_setitem result key v)"

subsection \<open>Cutting the JSON out of the model's reply\<close>

text \<open>
  \<^verbatim>\<open>text.split(sep)\<close> for a non-empty separator: the pieces between the occurrences
  of \<open>sep\<close>, read left to right without overlap.
\<close>

fun split_on :: "string \<Rightarrow> string \<Rightarrow> string \<Rightarrow> string list" where
  "split_on sep piece [] = [piece]"
| "split_on sep piece (c # cs) =
     (if prefix sep (c # cs) then piece # split_on sep [] (drop (length sep - 1) cs)
      else split_on sep (piece @ [c]) cs)"

definition py_split_on :: "string \<Rightarrow> string \<Rightarrow> string list" where
  "py_split_on sep text = split_on sep [] text"

definition fence :: string where
  "fence = [CHR 0x60, CHR 0x60, CHR 0x60]"

definition extract_json_text :: "string \<Rightarrow> string" where
  "extract_json_text reply =
     (let response_text = py_strip reply in
      if str_in (fence @ ''json'') response_text
      then py_strip (hd (py_split_on fence (py_split_on (fence @ ''json'') response_text ! 1)))
      else if str_in fence response_text
      then py_strip (hd (py_split_on fence (py_split_on fence response_text ! 1)))
      else response_text)"

subsection \<open>Grading a response\<close>

text \<open>
  The prompt is built by string interpolation and only handed to the model, so the model
  call is the model's answer: \<open>model_reply\<close> is what
  \<^verbatim>\<open>self.model.generate_content(prompt)\<close> and \<^verbatim>\<open>response.text\<close> give, an
  exception or the text. \<open>json_loads\<close> is \<^verbatim>\<open>json.loads\<close>, and \<open>exc_text\<close> is
  \<^verbatim>\<open>str(e)\<close>. \<open>try_grade\<close> is the body of the \<^verbatim>\<open>try\<close>, \<open>grade_response\<close>
  adds the \<^verbatim>\<open>except Exception\<close> around it.
\<close>

definition try_grade ::
  "(py_exception + string) \<Rightarrow> (string \<Rightarrow> py_exception + json) \<Rightarrow> py_exception + json" where
  "try_grade model_reply json_loads =
     (case model_reply of
        Inl e \<Rightarrow> Inl e
      | Inr reply \<Rightarrow>
          (case json_loads (extract_json_text reply) of
             Inl e \<Rightarrow> Inl e
           | Inr result \<Rightarrow>
               (case fill_default ''score'' (JNum 50) result of
                  Inl e \<Rightarrow> Inl e
                | Inr result1 \<Rightarrow>
                    (case fill_default ''feedback''
                            (JStr ''Unable to generate detailed feedback.'') result1 of
                       Inl e \<Rightarrow> Inl e
                     | Inr result2 \<Rightarrow> fill_default ''missing_points'' (JArr []) result2))))"

definition fallback_result :: "string \<Rightarrow> json" where
  "fallback_result message =
     JObj [(''score'', JNum 50),
           (''feedback'', JStr (''Error grading response: '' @ message @ ''. Please try again.'')),
           (''missing_points'', JArr [])]"

definition grade_response ::
  "(py_exception \<Rightarrow> string) \<Rightarrow> (py_exception + string)
     \<Rightarrow> (string \<Rightarrow> py_exception + json) \<Rightarrow> json" where
  "grade_response exc_text model_reply json_loads =
     (case try_grade model_reply json_loads of
        Inl e \<Rightarrow> fallback_result (exc_text e)
      | Inr result \<Rightarrow> result)"

text \<open>What the docstring promises: a dictionary with the three keys.\<close>

definition is_grade_dict :: "json \<Rightarrow> bool" where
  "is_grade_dict result =
     (case result of
        JObj items \<Rightarrow>
          ''score'' \<in> set (map fst items) \<and> ''feedback'' \<in> set (map fst items)
            \<and> ''missing_points'' \<in> set (map fst items)
      | JNull \<Rightarrow> False
      | JBool b \<Rightarrow> False
      | JNum n \<Rightarrow> False
      | JStr text \<Rightarrow> False
      | JArr elems \<Rightarrow> False)"

section \<open>The score ledger (main.py, QuizService)\<close>

text \<open>
  \<^verbatim>\<open>self.scores\<close> is a dictionary from question index to the list of the scores
  recorded for it, oldest first (\<^verbatim>\<open>_record_score(self, question_idx: int, score: int)\<close>).
  Python's \<^verbatim>\<open>sum(xs) / len(xs)\<close> on integers is true division; it is modelled
  over the reals, so a quotient that a binary float cannot hold exactly is the exact
  quotient here.
\<close>

type_synonym ledger = "int \<rightharpoonup> int list"

definition record_score :: "ledger \<Rightarrow> int \<Rightarrow> int \<Rightarrow> ledger" where
  "record_score scores question_idx score =
     (let scores1 = (if question_idx \<notin> dom scores then scores(question_idx \<mapsto> []) else scores)
      in scores1(question_idx \<mapsto> the (scores1 question_idx) @ [score]))"

definition has_no_scores :: "ledger \<Rightarrow> int \<Rightarrow> bool" where
  "has_no_scores scores question_idx =
     (case scores question_idx of None \<Rightarrow> True | Some xs \<Rightarrow> length xs = 0)"

definition get_average_score :: "ledger \<Rightarrow> int \<Rightarrow> real" where
  "get_average_score scores question_idx =
     (if has_no_scores scores question_idx then 100
      else real_of_int (sum_list (the (scores question_idx)))
             / real (length (the (scores question_idx))))"

text \<open>
  \<^verbatim>\<open>format_feedback_message\<close> reads the grade as the dictionary the grader's
  docstring promises: an integer score, a feedback text and a list of missing points,
  each key possibly absent.
\<close>

record grade_result =
  score :: "int option"
  feedback :: "string option"
  missing_points :: "string list option"

fun str_of_nat :: "nat \<Rightarrow> string" where
  "str_of_nat n =
     (if n < 10 then [char_of (48 + n)]
      else str_of_nat (n div 10) @ [char_of (48 + n mod 10)])"

definition str_of_int :: "int \<Rightarrow> string" where
  "str_of_int i = (if i < 0 then CHR ''-'' # str_of_nat (nat (- i)) else str_of_nat (nat i))"

fun numbered_points :: "nat \<Rightarrow> string list \<Rightarrow> string" where
  "numbered_points i [] = []"
| "numbered_points i (point # points) =
     str_of_nat i @ ''. '' @ point @ [CHR 0x0A] @ numbered_points (Suc i) points"

definition format_feedback_message :: "grade_result \<Rightarrow> string option \<Rightarrow> string" where
  "format_feedback_message grade correct_answer =
     (let score_v = (case score grade of None \<Rightarrow> 0 | Some n \<Rightarrow> n);
          feedback_v = (case feedback grade of None \<Rightarrow> [] | Some t \<Rightarrow> t);
          missing_v = (case missing_points grade of None \<Rightarrow> [] | Some ps \<Rightarrow> ps);
          message1 = ''Your Score: '' @ str_of_int score_v @ ''/100'' @ [CHR 0x0A, CHR 0x0A]
                     @ ''Feedback: '' @ feedback_v @ [CHR 0x0A, CHR 0x0A];
          message2 = (if missing_v \<noteq> []
                      then message1 @ ''Missing Points:'' @ [CHR 0x0A]
                             @ numbered_points 1 missing_v @ [CHR 0x0A]
                      else message1 @ ''Great job! You covered all the key points.''
                             @ [CHR 0x0A, CHR 0x0A])
      in case correct_answer of
           None \<Rightarrow> message2
         | Some answer \<Rightarrow>
             (if answer = [] then message2
              else message2 @ replicate 60 (CHR ''='') @ [CHR 0x0A]
                     @ ''Correct Answer:'' @ [CHR 0x0A]
                     @ replicate 60 (CHR ''='') @ [CHR 0x0A]
                     @ answer @ [CHR 0x0A]))"

section \<open>Random draws (Python's random module)\<close>

text \<open>
  \<^verbatim>\<open>random.choice(seq)\<close> is \<^verbatim>\<open>seq[self._randbelow(len(seq))]\<close>; \<open>k\<close> is the
  value \<^verbatim>\<open>_randbelow\<close> returned, uniform below \<^verbatim>\<open>len(seq)\<close>. An empty
  sequence raises IndexError.
\<close>

definition random_choice :: "'a list \<Rightarrow> nat \<Rightarrow> py_exception + 'a" where
  "random_choice seq k = (if k < length seq then Inr (seq ! k) else Inl IndexError)"

text \<open>
  \<^verbatim>\<open>random.choices(population, weights=..., k=1)[0]\<close>: the running sums of the
  weights, their total, and \<^verbatim>\<open>population[bisect(cum_weights, random() * total, 0, n - 1)]\<close>,
  where \<open>u\<close> is the value of \<^verbatim>\<open>random()\<close>, uniform in \<open>[0, 1)\<close>. On running
  sums, which do not decrease, \<^verbatim>\<open>bisect\<close> is the number of leading entries (among
  the first \<open>hi\<close>) that are at most \<open>x\<close>. Weights are reals here, floats in Python.
\<close>

fun accumulate :: "real \<Rightarrow> real list \<Rightarrow> real list" where
  "accumulate acc [] = []"
| "accumulate acc (w # ws) = (acc + w) # accumulate (acc + w) ws"

definition bisect :: "real list \<Rightarrow> real \<Rightarrow> nat \<Rightarrow> nat" where
  "bisect a x hi = length (takeWhile (\<lambda>c. c \<le> x) (take hi a))"

definition random_choices :: "'a list \<Rightarrow> real list \<Rightarrow> real \<Rightarrow> py_exception + 'a" where
  "random_choices population weights u =
     (let cum_weights = accumulate 0 weights;
          n = length population
      in if length cum_weights \<noteq> n then Inl ValueError
         else if n = 0 then Inl IndexError
         else (let total = last cum_weights in
               if total \<le> 0 then Inl ValueError
               else Inr (population ! bisect cum_weights (u * total) (n - 1))))"

section \<open>The quiz service (main.py, QuizService)\<close>

subsection \<open>Configuration, session state and files\<close>

record config =
  target_email :: string
  email_thread_id :: string
  question_interval_minutes :: int
  poll_interval_seconds :: int

text \<open>
  Points in time (\<^verbatim>\<open>datetime.now()\<close>, and the ISO strings saved from it) are
  microseconds on one clock; \<^verbatim>\<open>timedelta(minutes=n)\<close> is \<open>n\<close> times sixty million.
\<close>

definition minutes :: "int \<Rightarrow> int" where
  "minutes n = n * 60000000"

text \<open>
  \<^verbatim>\<open>self.state\<close>. A key that holds \<^verbatim>\<open>None\<close> and a key that is absent are both
  \<open>None\<close>; the source reads them alike. For \<^verbatim>\<open>sent_message_ids\<close> the difference
  matters (a present list is shared and mutated in place), so \<open>None\<close> there is the
  absent key.
\<close>

record session_state =
  current_question :: "string option"
  current_answer :: "string option"
  current_question_idx :: "int option"
  thread_id :: "string option"
  sent_message_id :: "string option"
  sent_message_timestamp :: "int option"
  last_question_time :: "int option"
  waiting_for_response :: bool
  recent_questions :: "int list"
  sent_message_ids :: "string list option"

record progress_entry =
  entry_timestamp :: int
  entry_question_idx :: "int option"
  entry_question :: string
  entry_user_response :: string
  entry_feedback :: string
  entry_score :: int

text \<open>
  A file of the working directory: missing, present but not parsable as the JSON the
  loader expects, or holding a value. Writes are assumed to succeed.
\<close>

datatype 'a disk_file = Missing | Unparsable | Content 'a

record files =
  state_file :: "session_state disk_file"
  scores_file :: "ledger disk_file"
  progress_file :: "progress_entry list disk_file"

record quiz_service =
  state :: session_state
  scores :: ledger
  progress :: "progress_entry list"
  questions_df :: "(string \<times> string) list"
  email_subject :: string
  disk :: files

definition truthy :: "string option \<Rightarrow> bool" where
  "truthy v = (case v of None \<Rightarrow> False | Some t \<Rightarrow> t \<noteq> [])"

definition save_state :: "quiz_service \<Rightarrow> quiz_service" where
  "save_state svc = svc\<lparr>disk := (disk svc)\<lparr>state_file := Content (state svc)\<rparr>\<rparr>"

definition save_scores :: "quiz_service \<Rightarrow> quiz_service" where
  "save_scores svc = svc\<lparr>disk := (disk svc)\<lparr>scores_file := Content (scores svc)\<rparr>\<rparr>"

definition save_progress :: "quiz_service \<Rightarrow> quiz_service" where
  "save_progress svc = svc\<lparr>disk := (disk svc)\<lparr>progress_file := Content (progress svc)\<rparr>\<rparr>"

definition record_progress ::
  "int \<Rightarrow> string \<Rightarrow> string \<Rightarrow> string \<Rightarrow> int \<Rightarrow> int option \<Rightarrow> quiz_service \<Rightarrow> quiz_service" where
  "record_progress now question user_response feedback_text score_v question_idx svc =
     save_progress (svc\<lparr>progress := progress svc @
        [\<lparr>entry_timestamp = now, entry_question_idx = question_idx,
          entry_question = question, entry_user_response = user_response,
          entry_feedback = feedback_text, entry_score = score_v\<rparr>]\<rparr>)"

definition record_score_saved :: "int \<Rightarrow> int \<Rightarrow> quiz_service \<Rightarrow> quiz_service" where
  "record_score_saved question_idx score_v svc =
     save_scores (svc\<lparr>scores := record_score (scores svc) question_idx score_v\<rparr>)"

subsection \<open>Loading at start-up\<close>

definition default_state :: "config \<Rightarrow> session_state" where
  "default_state cfg =
     \<lparr>current_question = None, current_answer = None, current_question_idx = None,
      thread_id = (if py_strip (email_thread_id cfg) = [] then None
                   else Some (email_thread_id cfg)),
      sent_message_id = None, sent_message_timestamp = None, last_question_time = None,
      waiting_for_response = False, recent_questions = [], sent_message_ids = None\<rparr>"

definition load_state :: "config \<Rightarrow> bool \<Rightarrow> files \<Rightarrow> session_state" where
  "load_state cfg reset_waiting d =
     (case state_file d of
        Content st \<Rightarrow>
          (if reset_waiting
           then st\<lparr>waiting_for_response := False, current_question := None,
                   current_answer := None, sent_message_id := None,
                   sent_message_timestamp := None\<rparr>
           else st)
      | Unparsable \<Rightarrow> default_state cfg
      | Missing \<Rightarrow> default_state cfg)"

definition load_scores :: "files \<Rightarrow> ledger" where
  "load_scores d =
     (case scores_file d of Content sc \<Rightarrow> sc | Unparsable \<Rightarrow> Map.empty | Missing \<Rightarrow> Map.empty)"

definition load_progress :: "files \<Rightarrow> progress_entry list" where
  "load_progress d =
     (case progress_file d of Content es \<Rightarrow> es | Unparsable \<Rightarrow> [] | Missing \<Rightarrow> [])"

text \<open>
  The questions file as \<^verbatim>\<open>pandas.read_csv\<close> finds it: missing, or a table with its
  column names and, per row, the cells of the question and answer columns (after
  \<^verbatim>\<open>questions\<close> and \<^verbatim>\<open>answers\<close> are renamed). The rows are numbered from 0.
\<close>

datatype questions_csv =
    CsvMissing
  | CsvTable (csv_columns: "string list") (csv_rows: "(string \<times> string) list")

definition normalize_columns :: "string list \<Rightarrow> string list" where
  "normalize_columns cols =
     map (\<lambda>c. if c = ''questions'' then ''question''
               else if c = ''answers'' then ''answer'' else c) cols"

fun list_max :: "int list \<Rightarrow> int" where
  "list_max [] = 0"
| "list_max [x] = x"
| "list_max (x # y # ys) = max x (list_max (y # ys))"

definition clear_stale :: "nat \<Rightarrow> session_state \<Rightarrow> session_state" where
  "clear_stale num_questions st =
     (if recent_questions st \<noteq> [] \<and> list_max (recent_questions st) \<ge> int num_questions
      then st\<lparr>recent_questions := [], current_question_idx := None,
              current_question := None, current_answer := None\<rparr>
      else st)"

definition load_questions :: "questions_csv \<Rightarrow> quiz_service \<Rightarrow> py_exception + quiz_service" where
  "load_questions csv svc =
     (case csv of
        CsvMissing \<Rightarrow> Inl FileNotFoundError
      | CsvTable cols table_rows \<Rightarrow>
          (if ''question'' \<notin> set (normalize_columns cols)
              \<or> ''answer'' \<notin> set (normalize_columns cols)
           then Inl ValueError
           else Inr (svc\<lparr>questions_df := table_rows,
                          state := clear_stale (length table_rows) (state svc)\<rparr>)))"

text \<open>
  \<^verbatim>\<open>QuizService.__init__\<close>, after the two service objects are built: the reset of
  the files, the three loads and the questions.
\<close>

definition reset_files :: "files \<Rightarrow> files" where
  "reset_files d = d\<lparr>state_file := Missing, scores_file := Missing\<rparr>"

definition init ::
  "config \<Rightarrow> questions_csv \<Rightarrow> string \<Rightarrow> bool \<Rightarrow> bool \<Rightarrow> files \<Rightarrow> py_exception + quiz_service" where
  "init cfg csv subject reset_state reset_waiting d0 =
     (let d1 = (if reset_state then reset_files d0 else d0) in
      load_questions csv
        \<lparr>state = load_state cfg reset_waiting d1, scores = load_scores d1,
         progress = load_progress d1, questions_df = [], email_subject = subject,
         disk = d1\<rparr>)"

subsection \<open>Selecting a question\<close>

record question_data =
  qd_question :: string
  qd_answer :: string
  qd_index :: int

text \<open>\<^verbatim>\<open>xs[-10:]\<close>: the last ten entries, or all of them when there are fewer.\<close>

definition last_ten :: "'a list \<Rightarrow> 'a list" where
  "last_ten xs = drop (length xs - 10) xs"

text \<open>
  The rows whose index is not in the recent set, in row order
  (\<^verbatim>\<open>self.questions_df[~self.questions_df.index.isin(recent)]\<close>).
\<close>

definition available_indices :: "nat \<Rightarrow> int list \<Rightarrow> int list" where
  "available_indices n recent = filter (\<lambda>i. i \<notin> set recent) (map int [0..<n])"

definition weight :: "ledger \<Rightarrow> int \<Rightarrow> real" where
  "weight sc question_idx = max 1 ((101 - get_average_score sc question_idx)\<^sup>2)"



definition question_row :: "quiz_service \<Rightarrow> int \<Rightarrow> question_data" where
  "question_row svc selected_idx =
     \<lparr>qd_question = fst (questions_df svc ! nat selected_idx),
      qd_answer = snd (questions_df svc ! nat selected_idx),
      qd_index = selected_idx\<rparr>"

text \<open>\<^verbatim>\<open>self.state['recent_questions'] = (recent_questions + [question_idx])[-10:]\<close>.\<close>

definition remember :: "int \<Rightarrow> quiz_service \<Rightarrow> quiz_service" where
  "remember question_idx svc =
     svc\<lparr>state := (state svc)\<lparr>recent_questions :=
            last_ten (recent_questions (state svc) @ [question_idx])\<rparr>\<rparr>"

text \<open>
  \<^verbatim>\<open>_select_random_question\<close>, with the two draws it may make: \<open>k\<close> for
  \<^verbatim>\<open>random.choice\<close> and \<open>u\<close> for \<^verbatim>\<open>random.choices\<close>. With an empty bank the
  source divides by \<^verbatim>\<open>len(weights)\<close>, which is zero.
\<close>

definition select_random_question ::
  "nat \<Rightarrow> real \<Rightarrow> quiz_service \<Rightarrow> py_exception + (question_data \<times> quiz_service)" where
  "select_random_question k u svc =
     (let n = length (questions_df svc);
          not_recent = available_indices n (recent_questions (state svc));
          available = (if length not_recent = 0 then map int [0..<n] else not_recent);
          svc1 = (if length not_recent = 0
                  then svc\<lparr>state := (state svc)\<lparr>recent_questions := []\<rparr>\<rparr> else svc);
          unanswered_indices = filter (has_no_scores (scores svc1)) available
      in if length unanswered_indices > 0 then
           (case random_choice unanswered_indices k of
              Inl e \<Rightarrow> Inl e
            | Inr selected_idx \<Rightarrow>
                Inr (question_row svc1 selected_idx, remember selected_idx svc1))
         else
           (let weights = map (weight (scores svc1)) available;
                total_weight = sum_list weights
            in if \<not> total_weight > 0 \<and> length weights = 0 then Inl ZeroDivisionError
               else
                 (let probabilities =
                        (if total_weight > 0 then map (\<lambda>w. w / total_weight) weights
                         else replicate (length weights) (1 / real (length weights)))
                  in case random_choices available probabilities u of
                       Inl e \<Rightarrow> Inl e
                     | Inr selected_idx \<Rightarrow>
                         Inr (question_row svc1 selected_idx, remember selected_idx svc1))))"

subsection \<open>Sending, checking and grading\<close>

text \<open>
  What the outside gives during one iteration of the loop: the clock at each
  \<^verbatim>\<open>datetime.now()\<close>, the two random draws, the outcome of sending the question, the
  mailbox as the read calls see it, the grader's outcome and the outcome of sending the
  feedback.
\<close>

record receipt =
  receipt_id :: string
  receipt_thread :: string

record world =
  now_send_check :: int
  now_sent :: int
  now_timeout :: int
  now_progress :: int
  randbelow :: nat
  random_unit :: real
  send_question_reply :: "py_exception + receipt"
  mailbox :: gmail
  grade_reply :: "py_exception + grade_result"
  send_feedback_reply :: "py_exception + receipt"

definition should_send_new_question :: "config \<Rightarrow> int \<Rightarrow> quiz_service \<Rightarrow> bool" where
  "should_send_new_question cfg now svc =
     (case last_question_time (state svc) of
        None \<Rightarrow> True
      | Some last_time \<Rightarrow>
          (if \<not> truthy (sent_message_id (state svc)) then True
           else now - last_time \<ge> minutes (question_interval_minutes cfg)))"

text \<open>
  \<^verbatim>\<open>sent_message_ids\<close> gains an id and keeps its last ten
  (\<^verbatim>\<open>append\<close>, then \<^verbatim>\<open>[-10:]\<close>); an absent key starts from the empty list.
\<close>

definition track_sent :: "string \<Rightarrow> session_state \<Rightarrow> session_state" where
  "track_sent mid st =
     st\<lparr>sent_message_ids :=
          Some (last_ten ((case sent_message_ids st of None \<Rightarrow> [] | Some ids \<Rightarrow> ids) @ [mid]))\<rparr>"

text \<open>
  \<^verbatim>\<open>_send_question\<close>. The selection runs before the \<^verbatim>\<open>try\<close>, so its exception
  leaves the function; a failed send is caught.
\<close>

definition send_question :: "world \<Rightarrow> quiz_service \<Rightarrow> py_exception + quiz_service" where
  "send_question w svc =
     (case select_random_question (randbelow w) (random_unit w) svc of
        Inl e \<Rightarrow> Inl e
      | Inr (question, svc1) \<Rightarrow>
          (case send_question_reply w of
             Inl e \<Rightarrow>
               Inr (save_state (svc1\<lparr>state := (state svc1)
                      \<lparr>waiting_for_response := False, sent_message_id := None\<rparr>\<rparr>))
           | Inr result \<Rightarrow>
               (let stamp = (case messages_get (mailbox w) (receipt_id result) of
                               Inr sent_msg \<Rightarrow> internalDate sent_msg
                             | Inl e \<Rightarrow> now_sent w div 1000)
                in Inr (save_state (svc1\<lparr>state := track_sent (receipt_id result)
                      ((state svc1)
                         \<lparr>current_question := Some (qd_question question),
                          current_answer := Some (qd_answer question),
                          current_question_idx := Some (qd_index question),
                          sent_message_id := Some (receipt_id result),
                          sent_message_timestamp := Some stamp,
                          thread_id := Some (receipt_thread result),
                          last_question_time := Some (now_sent w),
                          waiting_for_response := True\<rparr>)\<rparr>)))))"

text \<open>
  \<^verbatim>\<open>QuizService._check_for_response\<close>: the reply, if any, and the service, whose
  list of sent ids has gained the sent id when the key was there without it. An
  exception of the check is caught and gives no reply.
\<close>

definition quiz_check_for_response ::
  "config \<Rightarrow> world \<Rightarrow> quiz_service \<Rightarrow> string option \<times> quiz_service" where
  "quiz_check_for_response cfg w svc =
     (if \<not> waiting_for_response (state svc) then (None, svc)
      else if \<not> truthy (thread_id (state svc)) \<or> \<not> truthy (sent_message_id (state svc))
      then (None, svc)
      else
        (let tid = the (thread_id (state svc));
             sid = the (sent_message_id (state svc));
             ids = (case sent_message_ids (state svc) of None \<Rightarrow> [] | Some l \<Rightarrow> l);
             ids1 = (if sid \<notin> set ids then ids @ [sid] else ids);
             svc1 = (case sent_message_ids (state svc) of
                       None \<Rightarrow> svc
                     | Some l \<Rightarrow> svc\<lparr>state := (state svc)\<lparr>sent_message_ids := Some ids1\<rparr>\<rparr>)
         in case check_for_response (mailbox w) (target_email cfg) tid sid
                   (sent_message_timestamp (state svc)) (Some ids1) of
              Inl e \<Rightarrow> (None, svc1)
            | Inr response \<Rightarrow> (response, svc1)))"

text \<open>
  \<^verbatim>\<open>_grade_and_send_feedback\<close>. \<open>graded\<close> is the \<^verbatim>\<open>try\<close> block from the grade
  on: it returns the service as far as it got, and whether it ran to its end.
\<close>

definition finish_round :: "quiz_service \<Rightarrow> quiz_service" where
  "finish_round svc =
     save_state (svc\<lparr>state := (state svc)
       \<lparr>waiting_for_response := False, current_question := None, current_answer := None,
        current_question_idx := None, sent_message_id := None,
        sent_message_timestamp := None\<rparr>\<rparr>)"

definition abandon_round :: "quiz_service \<Rightarrow> quiz_service" where
  "abandon_round svc =
     save_state (svc\<lparr>state := (state svc)\<lparr>waiting_for_response := False\<rparr>\<rparr>)"

definition graded ::
  "world \<Rightarrow> string \<Rightarrow> string \<Rightarrow> string \<Rightarrow> grade_result \<Rightarrow> quiz_service
     \<Rightarrow> quiz_service \<times> bool" where
  "graded w user_response question correct_answer grade svc =
     (let score_v = (case score grade of None \<Rightarrow> 0 | Some n \<Rightarrow> n);
          question_idx = current_question_idx (state svc);
          svc1 = (case question_idx of
                    None \<Rightarrow> svc
                  | Some i \<Rightarrow> record_score_saved i score_v svc);
          feedback_message = format_feedback_message grade (Some correct_answer)
      in case send_feedback_reply w of
           Inl e \<Rightarrow> (svc1, False)
         | Inr feedback_result \<Rightarrow>
             (let svc2 = save_state (svc1\<lparr>state :=
                           track_sent (receipt_id feedback_result) (state svc1)\<rparr>);
                  svc3 = record_progress (now_progress w) question user_response
                           feedback_message score_v question_idx svc2
              in (svc3, True)))"

definition grade_and_send_feedback :: "world \<Rightarrow> string \<Rightarrow> quiz_service \<Rightarrow> quiz_service" where
  "grade_and_send_feedback w user_response svc =
     (if \<not> truthy (current_question (state svc)) \<or> \<not> truthy (current_answer (state svc))
      then svc
      else
        (case grade_reply w of
           Inl e \<Rightarrow> abandon_round svc
         | Inr grade \<Rightarrow>
             (case graded w user_response (the (current_question (state svc)))
                     (the (current_answer (state svc))) grade svc of
                (svc1, True) \<Rightarrow> finish_round svc1
              | (svc1, False) \<Rightarrow> abandon_round svc1)))"

subsection \<open>One iteration of the loop\<close>

definition timed_out :: "config \<Rightarrow> int \<Rightarrow> quiz_service \<Rightarrow> bool" where
  "timed_out cfg now svc =
     (case last_question_time (state svc) of
        None \<Rightarrow> False
      | Some last_time \<Rightarrow> now - last_time \<ge> minutes (question_interval_minutes cfg * 2))"

definition give_up_waiting :: "quiz_service \<Rightarrow> quiz_service" where
  "give_up_waiting svc =
     save_state (svc\<lparr>state := (state svc)
       \<lparr>waiting_for_response := False, sent_message_id := None\<rparr>\<rparr>)"

text \<open>
  The body of \<^verbatim>\<open>while True\<close> in \<^verbatim>\<open>run\<close>. The result is the service after the
  iteration and whether the iteration ended in \<^verbatim>\<open>time.sleep\<close> (\<open>True\<close>) or in
  \<^verbatim>\<open>continue\<close> (\<open>False\<close>); an exception of the selection ends the loop.
\<close>

definition run_iteration ::
  "config \<Rightarrow> world \<Rightarrow> quiz_service \<Rightarrow> py_exception + (quiz_service \<times> bool)" where
  "run_iteration cfg w svc =
     (case (if \<not> waiting_for_response (state svc)
               \<and> should_send_new_question cfg (now_send_check w) svc
            then send_question w svc else Inr svc) of
        Inl e \<Rightarrow> Inl e
      | Inr svc1 \<Rightarrow>
          (if waiting_for_response (state svc1) then
             (if timed_out cfg (now_timeout w) svc1 then Inr (give_up_waiting svc1, False)
              else
                (case quiz_check_for_response cfg w svc1 of
                   (response, svc2) \<Rightarrow>
                     (if truthy response
                      then Inr (grade_and_send_feedback w (the response) svc2, True)
                      else Inr (svc2, True))))
           else Inr (svc1, True)))"

text \<open>The loop over the worlds of successive iterations, until an exception ends it.\<close>

fun run_loop :: "config \<Rightarrow> world list \<Rightarrow> quiz_service \<Rightarrow> py_exception + quiz_service" where
  "run_loop cfg [] svc = Inr svc"
| "run_loop cfg (w # ws) svc =
     (case run_iteration cfg w svc of
        Inl e \<Rightarrow> Inl e
      | Inr (svc1, slept) \<Rightarrow> run_loop cfg ws svc1)"

subsection \<open>Runs of selections, and what the buffers must satisfy\<close>

text \<open>
  The selection clears the recent buffer first when every row of the bank is in it.
  \<open>select_all\<close> makes one selection per pair of draws and lists, for each, whether it
  cleared the buffer and the index it chose; \<open>since_reset\<close> replays such a list on a
  buffer without any bound on its length.
\<close>

definition all_recent :: "quiz_service \<Rightarrow> bool" where
  "all_recent svc =
     (available_indices (length (questions_df svc)) (recent_questions (state svc)) = [])"

fun select_all ::
  "(nat \<times> real) list \<Rightarrow> quiz_service \<Rightarrow> py_exception + ((bool \<times> int) list \<times> quiz_service)" where
  "select_all [] svc = Inr ([], svc)"
| "select_all ((k, u) # draws) svc =
     (case select_random_question k u svc of
        Inl e \<Rightarrow> Inl e
      | Inr (question, svc1) \<Rightarrow>
          (case select_all draws svc1 of
             Inl e \<Rightarrow> Inl e
           | Inr (events, svc2) \<Rightarrow> Inr ((all_recent svc, qd_index question) # events, svc2)))"

definition since_reset :: "int list \<Rightarrow> (bool \<times> int) list \<Rightarrow> int list" where
  "since_reset start events =
     foldl (\<lambda>buffer (cleared, i). (if cleared then [] else buffer) @ [i]) start events"

definition sent_ids :: "session_state \<Rightarrow> string list" where
  "sent_ids st = (case sent_message_ids st of None \<Rightarrow> [] | Some ids \<Rightarrow> ids)"

text \<open>Both buffers hold at most ten entries.\<close>

definition buffers_bounded :: "session_state \<Rightarrow> bool" where
  "buffers_bounded st \<longleftrightarrow>
     length (recent_questions st) \<le> 10 \<and> length (sent_ids st) \<le> 10"

text \<open>
  While a reply is awaited, the id of the question that was sent is in the list of sent
  ids (when the state has that list). \<^verbatim>\<open>_check_for_response\<close> appends that id to
  the list in place, without cutting the list, when it is not there.
\<close>

definition sent_id_tracked :: "session_state \<Rightarrow> bool" where
  "sent_id_tracked st \<longleftrightarrow>
     sent_message_ids st = None \<or> \<not> waiting_for_response st
     \<or> \<not> truthy (sent_message_id st)
     \<or> the (sent_message_id st) \<in> set (sent_ids st)"

definition bounded_and_tracked :: "session_state \<Rightarrow> bool" where
  "bounded_and_tracked st \<longleftrightarrow> buffers_bounded st \<and> sent_id_tracked st"

text \<open>
  The state file is absent, or not parsable, or holds a state whose buffers have at most
  ten entries.
\<close>

definition stored_state_bounded :: "files \<Rightarrow> bool" where
  "stored_state_bounded d =
     (case state_file d of
        Content st \<Rightarrow> buffers_bounded st
      | Unparsable \<Rightarrow> True
      | Missing \<Rightarrow> True)"

text \<open>
  The history is kept from one service to a later one: nothing about it changed, or
  the later history extends the earlier one and the file holds all of it.
\<close>

definition log_extended :: "quiz_service \<Rightarrow> quiz_service \<Rightarrow> bool" where
  "log_extended svc svc' \<longleftrightarrow>
     (progress svc' = progress svc \<and> progress_file (disk svc') = progress_file (disk svc))
     \<or> (prefix (progress svc) (progress svc')
          \<and> progress_file (disk svc') = Content (progress svc'))"

subsection \<open>The classifier as the specification words it\<close>

text \<open>
  The rejection rules as a list of conditions, any of which rejects a message, and the
  classifier that reads the thread newest first.
\<close>

definition rejected ::
  "gmail \<Rightarrow> string \<Rightarrow> string \<Rightarrow> int \<Rightarrow> string list \<Rightarrow> message \<Rightarrow> bool" where
  "rejected gm target sid ts excl m \<longleftrightarrow>
     msg_id m \<in> set excl
     \<or> internalDate m \<le> ts + 2000
     \<or> \<not> str_in (py_lower target) (py_lower (from_header m))
     \<or> internalDate m - ts < 10000
     \<or> looks_like_feedback m
     \<or> length (clean_response (extract_message_text m)) < 3
     \<or> quotes_question gm sid (clean_response (extract_message_text m))"

definition classify_newest_first ::
  "gmail \<Rightarrow> string \<Rightarrow> string \<Rightarrow> string \<Rightarrow> int option \<Rightarrow> string list option
     \<Rightarrow> py_exception + string option" where
  "classify_newest_first gm target tid sid stamp exclude_message_ids =
     (case get_thread_messages gm tid of
        Inl e \<Rightarrow> Inl e
      | Inr messages \<Rightarrow>
          Inr (first_valid_response gm target sid
                 (resolve_sent_timestamp gm sid stamp)
                 (exclude_with_sent exclude_message_ids sid)
                 (sort_newest_first messages)))"

section \<open>A small installation, for concrete runs\<close>

definition example_config :: config where
  "example_config =
     \<lparr>target_email = ''student@example.com'', email_thread_id = [],
      question_interval_minutes = 10, poll_interval_seconds = 30\<rparr>"

definition example_bank :: "(string \<times> string) list" where
  "example_bank =
     [(''What dominates the mass of a galaxy?'', ''Dark matter''),
      (''What is a spiral arm?'', ''A density wave''),
      (''Name the Hubble types'', ''Elliptical, spiral, irregular'')]"

definition example_csv :: questions_csv where
  "example_csv = CsvTable [''questions'', ''answers''] example_bank"

definition question_message :: message where
  "question_message =
     \<lparr>msg_id = ''m1'', internalDate = 1000000,
      headers = [(''From'', ''quiz@example.com''), (''To'', ''student@example.com'')],
      payload = Part ''text/plain'' (Some ''What dominates the mass of a galaxy?'') []\<rparr>"

definition reply_message :: "string \<Rightarrow> int \<Rightarrow> string \<Rightarrow> message" where
  "reply_message mid t body =
     \<lparr>msg_id = mid, internalDate = t,
      headers = [(''To'', ''quiz@example.com''), (''From'', ''Student <Student@Example.com>'')],
      payload = Part ''multipart/alternative'' None
                  [Part ''text/plain'' (Some body) [],
                   Part ''text/html'' (Some (''<p>'' @ body @ ''</p>'')) []]\<rparr>"

definition example_mailbox :: "message list \<Rightarrow> gmail" where
  "example_mailbox ms =
     \<lparr>threads_get = (\<lambda>t. if t = ''t1'' then Inr ms else Inl ApiError),
      messages_get = (\<lambda>i. if i = ''m1'' then Inr question_message else Inl ApiError)\<rparr>"

definition example_world :: "int \<Rightarrow> message list \<Rightarrow> py_exception + grade_result \<Rightarrow> world" where
  "example_world now ms grade =
     \<lparr>now_send_check = now, now_sent = now, now_timeout = now, now_progress = now,
      randbelow = 0, random_unit = 0,
      send_question_reply = Inr \<lparr>receipt_id = ''m1'', receipt_thread = ''t1''\<rparr>,
      mailbox = example_mailbox ms, grade_reply = grade,
      send_feedback_reply = Inr \<lparr>receipt_id = ''m3'', receipt_thread = ''t1''\<rparr>\<rparr>"

definition example_grade :: grade_result where
  "example_grade =
     \<lparr>score = Some 85, feedback = Some ''Good.'', missing_points = Some [''Halo mass'']\<rparr>"

definition example_disk :: "progress_entry list disk_file \<Rightarrow> files" where
  "example_disk history = \<lparr>state_file = Missing, scores_file = Missing, progress_file = history\<rparr>"

definition fresh_service :: quiz_service where
  "fresh_service =
     \<lparr>state = default_state example_config, scores = Map.empty, progress = [],
      questions_df = example_bank, email_subject = ''Quiz Question'',
      disk = example_disk Missing\<rparr>"

definition waiting_service :: quiz_service where
  "waiting_service =
     \<lparr>state = \<lparr>current_question = Some ''What dominates the mass of a galaxy?'',
                current_answer = Some ''Dark matter'', current_question_idx = Some 0,
                thread_id = Some ''t1'', sent_message_id = Some ''m1'',
                sent_message_timestamp = Some 1000000, last_question_time = Some 0,
                waiting_for_response = True, recent_questions = [0],
                sent_message_ids = Some [''m1'']\<rparr>,
      scores = Map.empty, progress = [], questions_df = example_bank,
      email_subject = ''Quiz Question'', disk = example_disk Missing\<rparr>"

definition reply_world :: "py_exception + grade_result \<Rightarrow> world" where
  "reply_world grade =
     example_world (minutes 1)
       [question_message, reply_message ''m2'' 1020000 ''Dark matter halos''] grade"

definition send_world :: world where
  "send_world = example_world 0 [question_message] (Inr example_grade)"

definition old_entry :: progress_entry where
  "old_entry =
     \<lparr>entry_timestamp = 0, entry_question_idx = Some 1,
      entry_question = ''What is a spiral arm?'', entry_user_response = ''A wave'',
      entry_feedback = ''Nearly.'', entry_score = 70\<rparr>"

definition stale_service :: "int list \<Rightarrow> quiz_service" where
  "stale_service recent =
     fresh_service\<lparr>state := (default_state example_config)
       \<lparr>current_question_idx := Some 50, recent_questions := recent\<rparr>\<rparr>"

definition shrunk_csv :: questions_csv where
  "shrunk_csv = CsvTable [''question'', ''answer''] (replicate 12 (''Question'', ''Answer''))"

definition untracked_service :: quiz_service where
  "untracked_service =
     waiting_service\<lparr>state := (state waiting_service)
       \<lparr>sent_message_ids :=
          Some [''a0'', ''a1'', ''a2'', ''a3'', ''a4'', ''a5'', ''a6'', ''a7'', ''a8'', ''a9'']\<rparr>\<rparr>"

definition four_draws :: "(nat \<times> real) list" where
  "four_draws = [(0, 0), (0, 0), (0, 0), (0, 0)]"


definition two_replies :: "message list" where
  "two_replies =
     [question_message, reply_message ''m2'' 1020000 ''First answer'',
      reply_message ''m4'' 1030000 ''Second answer'']"

definition reply_after :: "int \<Rightarrow> gmail" where
  "reply_after delay =
     example_mailbox [reply_message ''m2'' (1000000 + delay) ''Dark matter halos'']"

definition three_names_reply :: string where
  "three_names_reply =
     ''['' @ [CHR 0x22] @ ''score'' @ [CHR 0x22] @ '', '' @ [CHR 0x22] @ ''feedback''
       @ [CHR 0x22] @ '', '' @ [CHR 0x22] @ ''missing_points'' @ [CHR 0x22] @ '']''"

definition example_json_loads :: "string \<Rightarrow> py_exception + json" where
  "example_json_loads t =
     (if t = three_names_reply
      then Inr (JArr [JStr ''score'', JStr ''feedback'', JStr ''missing_points''])
      else Inl JSONDecodeError)"

definition example_exc_text :: "py_exception \<Rightarrow> string" where
  "example_exc_text e = ''failed''"

section \<open>Properties of the grader\<close>

text \<open>
  When the model call or the parse fails, the result is the fallback dictionary; when
  the parse gives a dictionary, the result is a dictionary with the three keys.
\<close>

lemma dict_set_keys: "set (map fst (dict_set items key v)) = insert key (set (map fst items))"
  by (induction items key v rule: dict_set.induct) auto

lemma fill_default_obj:
  "\<exists>items'. fill_default key v (JObj items) = Inr (JObj items')
      \<and> set (map fst items') = insert key (set (map fst items))"
proof (cases "key \<in> set (map fst items)")
  case True
  then show ?thesis
    by (auto simp: fill_default_def py_contains_def)
next
  case False
  then have "fill_default key v (JObj items) = Inr (JObj (dict_set items key v))"
    by (simp add: fill_default_def py_contains_def py_setitem_def)
  then show ?thesis
    using dict_set_keys by blast
qed

lemma try_grade_obj:
  assumes "json_loads (extract_json_text reply) = Inr (JObj items)"
  shows "\<exists>items'. try_grade (Inr reply) json_loads = Inr (JObj items')
      \<and> {''score'', ''feedback'', ''missing_points''} \<subseteq> set (map fst items')"
proof -
  obtain i1 where 1: "fill_default ''score'' (JNum 50) (JObj items) = Inr (JObj i1)"
    "set (map fst i1) = insert ''score'' (set (map fst items))"
    using fill_default_obj by blast
  obtain i2 where 2: "fill_default ''feedback''
        (JStr ''Unable to generate detailed feedback.'') (JObj i1) = Inr (JObj i2)"
    "set (map fst i2) = insert ''feedback'' (set (map fst i1))"
    using fill_default_obj by blast
  obtain i3 where 3: "fill_default ''missing_points'' (JArr []) (JObj i2) = Inr (JObj i3)"
    "set (map fst i3) = insert ''missing_points'' (set (map fst i2))"
    using fill_default_obj by blast
  have "try_grade (Inr reply) json_loads = Inr (JObj i3)"
    using assms 1(1) 2(1) 3(1) by (simp add: try_grade_def)
  moreover have "{''score'', ''feedback'', ''missing_points''} \<subseteq> set (map fst i3)"
    unfolding 3(2) 2(2) 1(2) by blast
  ultimately show ?thesis by blast
qed

lemma is_grade_dict_fallback: "is_grade_dict (fallback_result message)"
  by (simp add: is_grade_dict_def fallback_result_def)

lemma grade_response_failure:
  "model_reply = Inl e \<or> (\<exists>reply. model_reply = Inr reply
       \<and> json_loads (extract_json_text reply) = Inl e) \<Longrightarrow>
   grade_response exc_text model_reply json_loads = fallback_result (exc_text e)"
  by (auto simp: grade_response_def try_grade_def)

lemma grade_response_dict:
  assumes "model_reply = Inr reply"
    and "json_loads (extract_json_text reply) = Inr (JObj items)"
  shows "is_grade_dict (grade_response exc_text model_reply json_loads)"
proof -
  from try_grade_obj [of json_loads reply items, OF assms(2)] obtain items' where
    "try_grade (Inr reply) json_loads = Inr (JObj items')"
    "{''score'', ''feedback'', ''missing_points''} \<subseteq> set (map fst items')"
    by blast
  then show ?thesis
    using assms(1) by (simp add: grade_response_def is_grade_dict_def)
qed

text \<open>
  C10. \<^verbatim>\<open>grade_response\<close> always returns a value, and the docstring promises a
  dictionary with the keys \<^verbatim>\<open>score\<close>, \<^verbatim>\<open>feedback\<close> and
  \<^verbatim>\<open>missing_points\<close>. When the model answers with the JSON list of these three
  names, each \<^verbatim>\<open>not in\<close> test is a membership test on the list and is false, so the
  list itself is returned: the result is not a dictionary.
\<close>

theorem C10_list_of_names_returned:
  "grade_response example_exc_text (Inr three_names_reply) example_json_loads
     = JArr [JStr ''score'', JStr ''feedback'', JStr ''missing_points'']
   \<and> \<not> is_grade_dict
         (grade_response example_exc_text (Inr three_names_reply) example_json_loads)"
  by code_simp

section \<open>Properties of the response check\<close>

lemma accept_message_eq:
  "accept_message gm target sid ts excl m =
     (if rejected gm target sid ts excl m then None
      else Some (clean_response (extract_message_text m)))"
  unfolding accept_message_def rejected_def buffer_ms_def Let_def
  by auto

lemma first_valid_response_find:
  "first_valid_response gm target sid ts excl messages =
     map_option (\<lambda>m. clean_response (extract_message_text m))
       (find (\<lambda>m. \<not> rejected gm target sid ts excl m) messages)"
  by (induction messages) (simp_all add: accept_message_eq)

text \<open>
  C1. The response check reads the thread's messages in the order the thread read
  lists them, without sorting, and returns the cleaned text of the first message in that
  order that no rejection rule rejects; when every message is rejected it returns no
  response, which is a normal result. Only a failure of the thread read is an exception.
\<close>

theorem C1_first_passing_in_thread_order:
  "check_for_response gm target tid sid stamp excl =
     (case get_thread_messages gm tid of
        Inl e \<Rightarrow> Inl e
      | Inr messages \<Rightarrow>
          Inr (map_option (\<lambda>m. clean_response (extract_message_text m))
                 (find (\<lambda>m. \<not> rejected gm target sid (resolve_sent_timestamp gm sid stamp)
                                 (exclude_with_sent excl sid) m)
                    messages)))"
  by (simp add: check_for_response_def Let_def first_valid_response_find split: sum.splits)

theorem C1_first_passing_in_thread_order_witness:
  "check_for_response (example_mailbox two_replies) ''student@example.com'' ''t1'' ''m1''
     (Some 1000000) (Some [''m1'']) = Inr (Some ''First answer'')"
proof -
  have "(case get_thread_messages (example_mailbox two_replies) ''t1'' of
        Inl e \<Rightarrow> Inl e
      | Inr messages \<Rightarrow>
          Inr (map_option (\<lambda>m. clean_response (extract_message_text m))
                 (find (\<lambda>m. \<not> rejected (example_mailbox two_replies) ''student@example.com''
                                 ''m1''
                                 (resolve_sent_timestamp (example_mailbox two_replies) ''m1''
                                    (Some 1000000))
                                 (exclude_with_sent (Some [''m1'']) ''m1'') m)
                    messages))) = Inr (Some ''First answer'')"
    by code_simp
  then show ?thesis
    using C1_first_passing_in_thread_order [of "example_mailbox two_replies"
        "''student@example.com''" "''t1''" "''m1''" "Some 1000000" "Some [''m1'']"]
    by simp
qed

theorem C1_not_newest_first_counterexample:
  "check_for_response (example_mailbox two_replies) ''student@example.com'' ''t1'' ''m1''
     (Some 1000000) (Some [''m1'']) = Inr (Some ''First answer'')
   \<and> classify_newest_first (example_mailbox two_replies) ''student@example.com'' ''t1'' ''m1''
     (Some 1000000) (Some [''m1'']) = Inr (Some ''Second answer'')
   \<and> map msg_id (sort_newest_first two_replies) = [''m4'', ''m2'', ''m1'']"
  by code_simp

text \<open>
  C2. A reply that is the only message of the thread, is not excluded, comes from the
  correspondent and passes the content checks is accepted exactly when it arrives at
  least 10000 ms after the question was sent; so it is rejected 1500 ms and 3000 ms
  after the send.
\<close>

theorem C2_reply_accepted_from_ten_seconds:
  assumes "get_thread_messages gm tid = Inr [m]"
    and "msg_id m \<notin> set (exclude_with_sent excl sid)"
    and "str_in (py_lower target) (py_lower (from_header m))"
    and "\<not> looks_like_feedback m"
    and "3 \<le> length (clean_response (extract_message_text m))"
    and "\<not> quotes_question gm sid (clean_response (extract_message_text m))"
  shows "check_for_response gm target tid sid (Some ts) excl =
           Inr (if internalDate m - ts \<ge> 10000
                then Some (clean_response (extract_message_text m)) else None)"
  using assms
  by (simp add: check_for_response_def Let_def resolve_sent_timestamp_def accept_message_eq
      rejected_def)

theorem C2_three_seconds_rejected_counterexample:
  "check_for_response (reply_after 1500) ''student@example.com'' ''t1'' ''m1''
     (Some 1000000) (Some [''m1'']) = Inr None
   \<and> check_for_response (reply_after 3000) ''student@example.com'' ''t1'' ''m1''
     (Some 1000000) (Some [''m1'']) = Inr None
   \<and> check_for_response (reply_after 10000) ''student@example.com'' ''t1'' ''m1''
     (Some 1000000) (Some [''m1'']) = Inr (Some ''Dark matter halos'')"
  by code_simp

theorem C2_reply_accepted_from_ten_seconds_witness:
  "check_for_response (reply_after 3000) ''student@example.com'' ''t1'' ''m1''
     (Some 1000000) (Some [''m1'']) = Inr None
   \<and> check_for_response (reply_after 9999) ''student@example.com'' ''t1'' ''m1''
     (Some 1000000) (Some [''m1'']) = Inr None
   \<and> check_for_response (reply_after 12000) ''student@example.com'' ''t1'' ''m1''
     (Some 1000000) (Some [''m1'']) = Inr (Some ''Dark matter halos'')"
proof -
  have cleaned: "clean_response (extract_message_text (reply_message ''m2'' t ''Dark matter halos''))
                = ''Dark matter halos''" for t
  proof -
    have "extract_message_text (reply_message ''m2'' t ''Dark matter halos'')
            = ''Dark matter halos''"
      by (simp add: extract_message_text_def reply_message_def has_data_def)
    moreover have "clean_response ''Dark matter halos'' = ''Dark matter halos''"
      by code_simp
    ultimately show ?thesis by simp
  qed
  have a: "get_thread_messages (reply_after d) ''t1''
             = Inr [reply_message ''m2'' (1000000 + d) ''Dark matter halos'']" for d
    by (simp add: get_thread_messages_def reply_after_def example_mailbox_def)
  have b: "msg_id (reply_message ''m2'' t ''Dark matter halos'')
             \<notin> set (exclude_with_sent (Some [''m1'']) ''m1'')" for t
    by (simp add: reply_message_def exclude_with_sent_def)
  have c: "str_in (py_lower ''student@example.com'')
             (py_lower (from_header (reply_message ''m2'' t ''Dark matter halos'')))" for t
  proof -
    have "from_header (reply_message ''m2'' t ''Dark matter halos'')
            = from_header (reply_message ''m2'' 0 ''Dark matter halos'')"
      by (simp add: from_header_def reply_message_def)
    moreover have "from_header (reply_message ''m2'' 0 ''Dark matter halos'')
            = ''Student <Student@Example.com>''"
      by code_simp
    moreover have "str_in (py_lower ''student@example.com'')
                     (py_lower ''Student <Student@Example.com>'')"
      by code_simp
    ultimately show ?thesis by simp
  qed
  have d: "\<not> looks_like_feedback (reply_message ''m2'' t ''Dark matter halos'')" for t
  proof -
    have "extract_message_text (reply_message ''m2'' t ''Dark matter halos'')
            = ''Dark matter halos''"
      by (simp add: extract_message_text_def reply_message_def has_data_def)
    moreover have "\<not> list_ex (\<lambda>keyword. str_in keyword (py_lower (take 200 ''Dark matter halos'')))
                       feedback_keywords"
      by code_simp
    ultimately show ?thesis by (simp add: looks_like_feedback_def)
  qed
  have e: "3 \<le> length (clean_response
                 (extract_message_text (reply_message ''m2'' t ''Dark matter halos'')))" for t
    by (simp add: cleaned)
  have q: "\<not> quotes_question (reply_after dl) ''m1'' ''Dark matter halos''" for dl
  proof -
    have "messages_get (reply_after dl) ''m1'' = Inr question_message"
      by (simp add: reply_after_def example_mailbox_def)
    moreover have "\<not> quotes_question
                      \<lparr>threads_get = (\<lambda>t. Inl ApiError),
                        messages_get = (\<lambda>i. Inr question_message)\<rparr> ''m1''
                      ''Dark matter halos''"
      by code_simp
    ultimately show ?thesis by (simp add: quotes_question_def)
  qed
  have f: "\<not> quotes_question (reply_after dl) ''m1''
             (clean_response (extract_message_text
                (reply_message ''m2'' t ''Dark matter halos'')))" for dl t
    by (simp add: cleaned q)
  note inst = C2_reply_accepted_from_ten_seconds [OF a b c d e f, of _ 1000000]
  have "internalDate (reply_message ''m2'' t ''Dark matter halos'') = t" for t
    by (simp add: reply_message_def)
  then show ?thesis
    using inst [of 3000] inst [of 9999] inst [of 12000] by (simp add: cleaned)
qed

section \<open>Properties of the score ledger\<close>

text \<open>
  C5. The average score of a question index with no recorded score entries (the key is
  absent, or its list is empty) is 100, and for an index with recorded scores it is the
  arithmetic mean of those scores; the scores 80 and 60 give 70.
\<close>

theorem C5_average_score:
  "(led q = None \<or> led q = Some []
      \<longrightarrow> get_average_score led q = 100)
   \<and> (\<forall>xs. led q = Some xs \<and> xs \<noteq> []
      \<longrightarrow> get_average_score led q
            = real_of_int (sum_list xs) / real (length xs))
   \<and> get_average_score (Map.empty(7 \<mapsto> [80, 60])) 7 = 70
   \<and> get_average_score Map.empty 7 = 100"
  by (auto simp: get_average_score_def has_no_scores_def)

theorem C5_average_score_witness:
  "get_average_score (Map.empty(3 \<mapsto> [])) 3 = 100
   \<and> get_average_score (Map.empty(3 \<mapsto> [80, 60])) 4 = 100
   \<and> get_average_score (Map.empty(3 \<mapsto> [90, 45, 30])) 3 = 55"
  using C5_average_score [of "Map.empty(3 \<mapsto> [])" 3]
    C5_average_score [of "Map.empty(3 \<mapsto> [80, 60])" 4]
    C5_average_score [of "Map.empty(3 \<mapsto> [90, 45, 30])" 3]
  by simp

section \<open>Properties of the selection\<close>

subsection \<open>Running sums and the weighted draw\<close>














subsection \<open>The two strategies\<close>








section \<open>Properties of the buffers\<close>

subsection \<open>The last ten entries\<close>

lemma length_last_ten: "length (last_ten xs) \<le> 10"
  by (simp add: last_ten_def)

lemma last_ten_append_one: "last_ten (last_ten ys @ [i]) = last_ten (ys @ [i])"
proof -
  have "length ys - (length ys - 10 + 9) + (length ys - 10) = length ys - 9"
    by arith
  then show ?thesis
    by (simp add: last_ten_def)
qed

lemma last_ten_short: "length xs \<le> 10 \<Longrightarrow> last_ten xs = xs"
  by (simp add: last_ten_def)

lemma since_reset_last_ten:
  "last_ten ys = last_ten zs \<Longrightarrow>
   last_ten (since_reset ys events) = last_ten (since_reset zs events)"
proof (induction events arbitrary: ys zs)
  case Nil
  then show ?case by (simp add: since_reset_def)
next
  case (Cons ev events)
  obtain cleared i where ev: "ev = (cleared, i)" by (cases ev)
  have "last_ten ((if cleared then [] else ys) @ [i]) = last_ten ((if cleared then [] else zs) @ [i])"
  proof (cases cleared)
    case True
    then show ?thesis by simp
  next
    case False
    have "last_ten (ys @ [i]) = last_ten (last_ten ys @ [i])"
      by (simp add: last_ten_append_one)
    also have "\<dots> = last_ten (last_ten zs @ [i])"
      using Cons.prems by simp
    also have "\<dots> = last_ten (zs @ [i])"
      by (rule last_ten_append_one)
    finally show ?thesis using False by simp
  qed
  from Cons.IH [OF this] show ?case
    by (simp add: since_reset_def ev)
qed

lemma select_result:
  assumes "select_random_question k u svc = Inr (q, svc')"
  shows "\<exists>i. q = question_row (if all_recent svc
                  then svc\<lparr>state := (state svc)\<lparr>recent_questions := []\<rparr>\<rparr> else svc) i
           \<and> svc' = remember i (if all_recent svc
                  then svc\<lparr>state := (state svc)\<lparr>recent_questions := []\<rparr>\<rparr> else svc)"
proof (cases "all_recent svc")
  case True
  with assms show ?thesis
    unfolding select_random_question_def all_recent_def Let_def
    by (simp split: if_splits sum.splits) blast+
next
  case False
  with assms show ?thesis
    unfolding select_random_question_def all_recent_def Let_def
    by (simp split: if_splits sum.splits) blast+
qed

lemma select_recent:
  assumes "select_random_question k u svc = Inr (q, svc')"
  shows "recent_questions (state svc')
           = last_ten ((if all_recent svc then [] else recent_questions (state svc)) @ [qd_index q])"
proof -
  from select_result [OF assms] obtain i where
    "q = question_row (if all_recent svc
                  then svc\<lparr>state := (state svc)\<lparr>recent_questions := []\<rparr>\<rparr> else svc) i"
    "svc' = remember i (if all_recent svc
                  then svc\<lparr>state := (state svc)\<lparr>recent_questions := []\<rparr>\<rparr> else svc)"
    by blast
  then show ?thesis
    by (simp add: remember_def question_row_def)
qed


lemma select_all_recent:
  "select_all draws svc = Inr (events, svc') \<Longrightarrow>
   recent_questions (state svc') = last_ten (since_reset (recent_questions (state svc)) events)
   \<or> (draws = [] \<and> svc' = svc)"
proof (induction draws arbitrary: svc events)
  case Nil
  then show ?case by simp
next
  case (Cons d draws)
  obtain k u where d: "d = (k, u)" by (cases d)
  from Cons.prems d obtain q svc1 evs where
    sel: "select_random_question k u svc = Inr (q, svc1)" and
    rest: "select_all draws svc1 = Inr (evs, svc')" and
    ev: "events = (all_recent svc, qd_index q) # evs"
    by (auto split: sum.splits prod.splits)
  let ?b = "(if all_recent svc then [] else recent_questions (state svc)) @ [qd_index q]"
  have r1: "recent_questions (state svc1) = last_ten ?b"
    using select_recent [OF sel] .
  have step: "since_reset (recent_questions (state svc)) events = since_reset ?b evs"
    by (simp add: since_reset_def ev)
  from Cons.IH [OF rest] show ?case
  proof
    assume "recent_questions (state svc') = last_ten (since_reset (recent_questions (state svc1)) evs)"
    also have "\<dots> = last_ten (since_reset ?b evs)"
      unfolding r1 by (rule since_reset_last_ten) (simp add: last_ten_def)
    finally show ?thesis using step by simp
  next
    assume a: "draws = [] \<and> svc' = svc1"
    then have "evs = []" using rest by simp
    then show ?thesis using r1 step a
      by (simp add: since_reset_def)
  qed
qed

lemma mem_last_ten_snoc: "x \<in> set (last_ten (xs @ [x]))"
  by (simp add: last_ten_def)

lemma select_frame:
  assumes "select_random_question k u svc = Inr (q, svc')"
  shows "\<exists>r. svc' = svc\<lparr>state := (state svc)\<lparr>recent_questions := r\<rparr>\<rparr> \<and> length r \<le> 10"
proof -
  from select_result [OF assms] obtain i where
    "svc' = remember i (if all_recent svc
                  then svc\<lparr>state := (state svc)\<lparr>recent_questions := []\<rparr>\<rparr> else svc)"
    by blast
  then show ?thesis
    by (auto simp: remember_def length_last_ten)
qed

lemma track_sent_bounded:
  "length (sent_ids (track_sent mid st)) \<le> 10 \<and> mid \<in> set (sent_ids (track_sent mid st))
   \<and> sent_message_ids (track_sent mid st) \<noteq> None"
  by (simp add: track_sent_def sent_ids_def length_last_ten mem_last_ten_snoc)

lemma track_sent_other:
  "recent_questions (track_sent mid st) = recent_questions st
   \<and> waiting_for_response (track_sent mid st) = waiting_for_response st
   \<and> sent_message_id (track_sent mid st) = sent_message_id st"
  by (simp add: track_sent_def)

lemma send_question_bounded:
  assumes "bounded_and_tracked (state svc)" and "send_question w svc = Inr svc'"
  shows "bounded_and_tracked (state svc')"
proof -
  from assms(2) obtain q svc1 where
    sel: "select_random_question (randbelow w) (random_unit w) svc = Inr (q, svc1)"
    by (auto simp: send_question_def split: sum.splits prod.splits)
  from select_frame [OF sel] obtain r where
    svc1: "svc1 = svc\<lparr>state := (state svc)\<lparr>recent_questions := r\<rparr>\<rparr>" and r: "length r \<le> 10"
    by blast
  show ?thesis
  proof (cases "send_question_reply w")
    case (Inl e)
    with assms sel svc1 r show ?thesis
      by (auto simp: send_question_def save_state_def bounded_and_tracked_def buffers_bounded_def sent_id_tracked_def sent_ids_def)
  next
    case (Inr result)
    with assms(2) sel have
      "state svc' = track_sent (receipt_id result)
         ((state svc1)\<lparr>current_question := Some (qd_question q),
            current_answer := Some (qd_answer q), current_question_idx := Some (qd_index q),
            sent_message_id := Some (receipt_id result),
            sent_message_timestamp := Some (case messages_get (mailbox w) (receipt_id result) of
                               Inr sent_msg \<Rightarrow> internalDate sent_msg
                             | Inl e \<Rightarrow> now_sent w div 1000),
            thread_id := Some (receipt_thread result),
            last_question_time := Some (now_sent w), waiting_for_response := True\<rparr>)"
      by (auto simp: send_question_def save_state_def Let_def)
    then show ?thesis
      using track_sent_bounded [of "receipt_id result"] r svc1
      by (simp add: bounded_and_tracked_def buffers_bounded_def sent_id_tracked_def track_sent_other)
  qed
qed


lemma quiz_check_state:
  assumes "bounded_and_tracked (state svc)"
  shows "snd (quiz_check_for_response cfg w svc) = svc"
proof (cases "waiting_for_response (state svc) \<and> truthy (thread_id (state svc))
                \<and> truthy (sent_message_id (state svc))")
  case False
  then show ?thesis
    by (auto simp: quiz_check_for_response_def)
next
  case True
  show ?thesis
  proof (cases "sent_message_ids (state svc)")
    case None
    with True show ?thesis
      by (simp add: quiz_check_for_response_def Let_def split: sum.splits)
  next
    case (Some l)
    with True assms have "the (sent_message_id (state svc)) \<in> set l"
      by (simp add: bounded_and_tracked_def buffers_bounded_def sent_id_tracked_def sent_ids_def)
    with True Some show ?thesis
      by (simp add: quiz_check_for_response_def Let_def split: sum.splits)
  qed
qed

lemma graded_bounded:
  assumes "bounded_and_tracked (state svc)"
    and "graded w r question answer grade svc = (svc', b)"
  shows "length (recent_questions (state svc')) \<le> 10 \<and> length (sent_ids (state svc')) \<le> 10"
proof (cases "send_feedback_reply w")
  case (Inl e)
  with assms show ?thesis
    by (auto simp: graded_def Let_def bounded_and_tracked_def buffers_bounded_def sent_id_tracked_def record_score_saved_def save_scores_def
        split: option.splits)
next
  case (Inr fr)
  with assms(2) have
    "state svc' = track_sent (receipt_id fr) (state svc)"
    by (auto simp: graded_def Let_def record_score_saved_def save_scores_def save_state_def
        record_progress_def save_progress_def split: option.splits)
  then show ?thesis
    using track_sent_bounded [of "receipt_id fr" "state svc"] assms(1)
    by (simp add: track_sent_other bounded_and_tracked_def buffers_bounded_def sent_id_tracked_def)
qed

lemma not_waiting_bounded:
  "length (recent_questions st) \<le> 10 \<Longrightarrow> length (sent_ids st) \<le> 10 \<Longrightarrow>
   \<not> waiting_for_response st \<Longrightarrow> bounded_and_tracked st"
  by (simp add: bounded_and_tracked_def buffers_bounded_def sent_id_tracked_def)

lemma grade_and_send_feedback_bounded:
  assumes "bounded_and_tracked (state svc)"
  shows "bounded_and_tracked (state (grade_and_send_feedback w r svc))"
proof (cases "\<not> truthy (current_question (state svc)) \<or> \<not> truthy (current_answer (state svc))")
  case True
  then show ?thesis using assms by (auto simp: grade_and_send_feedback_def)
next
  case False
  show ?thesis
  proof (cases "grade_reply w")
    case (Inl e)
    with False assms show ?thesis
      by (auto simp: grade_and_send_feedback_def abandon_round_def save_state_def
          bounded_and_tracked_def buffers_bounded_def sent_id_tracked_def sent_ids_def)
  next
    case (Inr grade)
    obtain svc1 b where g: "graded w r (the (current_question (state svc)))
                     (the (current_answer (state svc))) grade svc = (svc1, b)"
      by (cases "graded w r (the (current_question (state svc)))
                     (the (current_answer (state svc))) grade svc")
    from graded_bounded [OF assms g] have
      "length (recent_questions (state svc1)) \<le> 10" "length (sent_ids (state svc1)) \<le> 10"
      by simp_all
    then have "bounded_and_tracked (state (finish_round svc1))"
      "bounded_and_tracked (state (abandon_round svc1))"
      by (simp_all add: finish_round_def abandon_round_def save_state_def
          bounded_and_tracked_def buffers_bounded_def sent_id_tracked_def sent_ids_def)
    with False Inr g show ?thesis
      by (cases b) (auto simp: grade_and_send_feedback_def)
  qed
qed

lemma give_up_waiting_bounded:
  "bounded_and_tracked (state svc) \<Longrightarrow> bounded_and_tracked (state (give_up_waiting svc))"
  by (simp add: give_up_waiting_def save_state_def bounded_and_tracked_def buffers_bounded_def sent_id_tracked_def sent_ids_def)

lemma run_iteration_bounded:
  assumes "bounded_and_tracked (state svc)" and "run_iteration cfg w svc = Inr (svc', slept)"
  shows "bounded_and_tracked (state svc')"
proof -
  define first where "first = (if \<not> waiting_for_response (state svc)
               \<and> should_send_new_question cfg (now_send_check w) svc
            then send_question w svc else Inr svc)"
  from assms(2) obtain svc1 where f: "first = Inr svc1"
    unfolding run_iteration_def first_def [symmetric] by (cases first) auto
  have b1: "bounded_and_tracked (state svc1)"
    using f assms(1) send_question_bounded [OF assms(1)]
    by (auto simp: first_def split: if_splits)
  have c: "snd (quiz_check_for_response cfg w svc1) = svc1"
    by (rule quiz_check_state [OF b1])
  from assms(2) f have
    "svc' = give_up_waiting svc1 \<or> svc' = svc1
     \<or> svc' = grade_and_send_feedback w (the (fst (quiz_check_for_response cfg w svc1))) svc1"
    unfolding run_iteration_def first_def [symmetric] using c
    by (auto split: if_splits prod.splits)
  then show ?thesis
    using b1 give_up_waiting_bounded grade_and_send_feedback_bounded by auto
qed

lemma run_loop_bounded:
  "bounded_and_tracked (state svc) \<Longrightarrow> run_loop cfg ws svc = Inr svc' \<Longrightarrow>
   bounded_and_tracked (state svc')"
proof (induction ws arbitrary: svc)
  case Nil
  then show ?case by simp
next
  case (Cons w ws)
  from Cons.prems(2) obtain svc1 slept where
    step: "run_iteration cfg w svc = Inr (svc1, slept)" and rest: "run_loop cfg ws svc1 = Inr svc'"
    by (auto split: sum.splits prod.splits)
  from run_iteration_bounded [OF Cons.prems(1) step] have "bounded_and_tracked (state svc1)" .
  from Cons.IH [OF this rest] show ?case .
qed

lemma default_state_bounded: "bounded_and_tracked (default_state cfg)"
  by (simp add: bounded_and_tracked_def buffers_bounded_def sent_id_tracked_def default_state_def sent_ids_def)

lemma select_all_recent_bounded:
  assumes "length (recent_questions (state svc)) \<le> 10"
    and "select_all draws svc = Inr (events, svc')"
  shows "recent_questions (state svc') = last_ten (since_reset (recent_questions (state svc)) events)"
  using select_all_recent [OF assms(2)]
proof
  assume "draws = [] \<and> svc' = svc"
  then show ?thesis using assms by (simp add: since_reset_def last_ten_short)
qed

lemma quiz_check_tracked:
  assumes "sent_id_tracked (state svc)"
  shows "snd (quiz_check_for_response cfg w svc) = svc"
proof (cases "waiting_for_response (state svc) \<and> truthy (thread_id (state svc))
                \<and> truthy (sent_message_id (state svc))")
  case False
  then show ?thesis
    by (auto simp: quiz_check_for_response_def)
next
  case True
  show ?thesis
  proof (cases "sent_message_ids (state svc)")
    case None
    with True show ?thesis
      by (simp add: quiz_check_for_response_def Let_def split: sum.splits)
  next
    case (Some l)
    with True assms have "the (sent_message_id (state svc)) \<in> set l"
      by (simp add: sent_id_tracked_def sent_ids_def)
    with True Some show ?thesis
      by (simp add: quiz_check_for_response_def Let_def split: sum.splits)
  qed
qed

lemma init_bounded:
  assumes "stored_state_bounded d0"
    and "init cfg csv subject reset_state True d0 = Inr svc0"
  shows "bounded_and_tracked (state svc0) \<and> stored_state_bounded (disk svc0)"
proof -
  define d1 where "d1 = (if reset_state then reset_files d0 else d0)"
  have s1: "stored_state_bounded d1"
    using assms(1) by (simp add: d1_def reset_files_def stored_state_bounded_def)
  have l: "bounded_and_tracked (load_state cfg True d1)"
    using s1
    by (cases "state_file d1")
       (simp_all add: load_state_def stored_state_bounded_def bounded_and_tracked_def
          buffers_bounded_def sent_id_tracked_def default_state_def sent_ids_def)
  have c: "bounded_and_tracked (clear_stale n st)" if "bounded_and_tracked st" for n st
    using that
    by (simp add: clear_stale_def bounded_and_tracked_def buffers_bounded_def
        sent_id_tracked_def sent_ids_def)
  from assms(2) have
    "\<exists>n. state svc0 = clear_stale n (load_state cfg True d1) \<and> disk svc0 = d1"
    unfolding init_def Let_def d1_def [symmetric]
    by (auto simp: load_questions_def split: questions_csv.splits if_splits)
  then show ?thesis
    using l c s1 by auto
qed

lemma send_question_saved:
  assumes "send_question w svc = Inr svc'"
  shows "state_file (disk svc') = Content (state svc')"
proof -
  from assms obtain q svc1 where
    sel: "select_random_question (randbelow w) (random_unit w) svc = Inr (q, svc1)"
    by (auto simp: send_question_def split: sum.splits prod.splits)
  from assms sel show ?thesis
    by (cases "send_question_reply w") (auto simp: send_question_def save_state_def Let_def)
qed

lemma grade_and_send_feedback_saved:
  "grade_and_send_feedback w r svc = svc
   \<or> state_file (disk (grade_and_send_feedback w r svc))
       = Content (state (grade_and_send_feedback w r svc))"
proof (cases "\<not> truthy (current_question (state svc)) \<or> \<not> truthy (current_answer (state svc))")
  case True
  then show ?thesis by (auto simp: grade_and_send_feedback_def)
next
  case False
  show ?thesis
  proof (cases "grade_reply w")
    case (Inl e)
    with False show ?thesis
      by (auto simp: grade_and_send_feedback_def abandon_round_def save_state_def)
  next
    case (Inr grade)
    obtain svc1 b where g: "graded w r (the (current_question (state svc)))
                     (the (current_answer (state svc))) grade svc = (svc1, b)"
      by (cases "graded w r (the (current_question (state svc)))
                     (the (current_answer (state svc))) grade svc")
    with False Inr show ?thesis
      by (cases b)
         (auto simp: grade_and_send_feedback_def finish_round_def abandon_round_def
            save_state_def)
  qed
qed

lemma run_iteration_stored:
  assumes "bounded_and_tracked (state svc)" and "stored_state_bounded (disk svc)"
    and "run_iteration cfg w svc = Inr (svc', slept)"
  shows "stored_state_bounded (disk svc')"
proof -
  define first where "first = (if \<not> waiting_for_response (state svc)
               \<and> should_send_new_question cfg (now_send_check w) svc
            then send_question w svc else Inr svc)"
  from assms(3) obtain svc1 where f: "first = Inr svc1"
    unfolding run_iteration_def first_def [symmetric] by (cases first) auto
  have b1: "bounded_and_tracked (state svc1)"
    using f assms(1) send_question_bounded [OF assms(1)]
    by (auto simp: first_def split: if_splits)
  have "svc1 = svc \<or> state_file (disk svc1) = Content (state svc1)"
    using f send_question_saved [of w svc svc1] by (auto simp: first_def split: if_splits)
  then have s1: "stored_state_bounded (disk svc1)"
    using assms(2) b1 by (auto simp: stored_state_bounded_def bounded_and_tracked_def)
  have c: "snd (quiz_check_for_response cfg w svc1) = svc1"
    using b1 by (intro quiz_check_tracked) (simp add: bounded_and_tracked_def)
  from assms(3) f have
    "svc' = give_up_waiting svc1 \<or> svc' = svc1
     \<or> svc' = grade_and_send_feedback w (the (fst (quiz_check_for_response cfg w svc1))) svc1"
    unfolding run_iteration_def first_def [symmetric] using c
    by (auto split: if_splits prod.splits)
  moreover have "state_file (disk (give_up_waiting svc1)) = Content (state (give_up_waiting svc1))"
    by (simp add: give_up_waiting_def save_state_def)
  moreover note grade_and_send_feedback_saved
    [of w "the (fst (quiz_check_for_response cfg w svc1))" svc1]
  ultimately have "svc' = svc1 \<or> state_file (disk svc') = Content (state svc')"
    by auto
  moreover have "bounded_and_tracked (state svc')"
    using run_iteration_bounded [OF assms(1,3)] .
  ultimately show ?thesis
    using s1 by (auto simp: stored_state_bounded_def bounded_and_tracked_def)
qed

lemma run_loop_stored:
  "bounded_and_tracked (state svc) \<Longrightarrow> stored_state_bounded (disk svc) \<Longrightarrow>
   run_loop cfg ws svc = Inr svc' \<Longrightarrow> stored_state_bounded (disk svc')"
proof (induction ws arbitrary: svc)
  case Nil
  then show ?case by simp
next
  case (Cons w ws)
  from Cons.prems(3) obtain svc1 slept where
    step: "run_iteration cfg w svc = Inr (svc1, slept)" and rest: "run_loop cfg ws svc1 = Inr svc'"
    by (auto split: sum.splits prod.splits)
  from run_iteration_bounded [OF Cons.prems(1) step]
  have b: "bounded_and_tracked (state svc1)" .
  from run_iteration_stored [OF Cons.prems(1,2) step]
  have s: "stored_state_bounded (disk svc1)" .
  from Cons.IH [OF b s rest] show ?case .
qed

text \<open>
  C6. Every update of a buffer by a selection, by the sending of a question and by the
  sending of feedback keeps the last ten entries, the oldest leaving first; the response
  check appends the id of the awaited question to the list of sent ids, uncut, only when
  the list lacks that id. Start-up with the waiting state reset, from a state file that is
  absent, unparsable or holds buffers of at most ten entries, gives a state with both
  buffers at most ten in which the awaited id is tracked; from such a state every run of
  the loop keeps both buffers at most ten, keeps the awaited id tracked (so the check
  never appends) and keeps the state file fit for the next start-up. After a run of
  selections the recent buffer is the last ten of the indices chosen since the buffer was
  last emptied, in order.
\<close>

theorem C6_buffers_hold_ten:
  "(stored_state_bounded d0 \<and> init cfg csv subject reset_state True d0 = Inr svc0
      \<longrightarrow> buffers_bounded (state svc0) \<and> sent_id_tracked (state svc0)
          \<and> stored_state_bounded (disk svc0))
   \<and> (buffers_bounded (state svc) \<and> sent_id_tracked (state svc)
        \<and> stored_state_bounded (disk svc) \<and> run_loop cfg ws svc = Inr svc'
      \<longrightarrow> length (recent_questions (state svc')) \<le> 10 \<and> length (sent_ids (state svc')) \<le> 10
          \<and> sent_id_tracked (state svc') \<and> stored_state_bounded (disk svc'))
   \<and> (sent_id_tracked (state svc) \<longrightarrow> snd (quiz_check_for_response cfg w svc) = svc)
   \<and> (select_random_question k u svc = Inr (q, svc1)
      \<longrightarrow> recent_questions (state svc1)
            = last_ten ((if all_recent svc then [] else recent_questions (state svc))
                         @ [qd_index q]))
   \<and> sent_ids (track_sent mid st) = last_ten (sent_ids st @ [mid])
   \<and> length (last_ten xs) \<le> 10
   \<and> (length (recent_questions (state svc)) \<le> 10 \<and> select_all draws svc = Inr (events, svc2)
      \<longrightarrow> recent_questions (state svc2)
            = last_ten (since_reset (recent_questions (state svc)) events))"
proof -
  have "stored_state_bounded d0 \<and> init cfg csv subject reset_state True d0 = Inr svc0
      \<longrightarrow> buffers_bounded (state svc0) \<and> sent_id_tracked (state svc0)
          \<and> stored_state_bounded (disk svc0)"
    using init_bounded [of d0 cfg csv subject reset_state svc0]
    by (simp add: bounded_and_tracked_def)
  moreover have "buffers_bounded (state svc) \<and> sent_id_tracked (state svc)
        \<and> stored_state_bounded (disk svc) \<and> run_loop cfg ws svc = Inr svc'
      \<longrightarrow> length (recent_questions (state svc')) \<le> 10 \<and> length (sent_ids (state svc')) \<le> 10
          \<and> sent_id_tracked (state svc') \<and> stored_state_bounded (disk svc')"
    using run_loop_bounded [of svc cfg ws svc'] run_loop_stored [of svc cfg ws svc']
    by (simp add: bounded_and_tracked_def buffers_bounded_def)
  moreover have "sent_id_tracked (state svc) \<longrightarrow> snd (quiz_check_for_response cfg w svc) = svc"
    using quiz_check_tracked by blast
  moreover have "select_random_question k u svc = Inr (q, svc1)
      \<longrightarrow> recent_questions (state svc1)
            = last_ten ((if all_recent svc then [] else recent_questions (state svc))
                         @ [qd_index q])"
    using select_recent by blast
  moreover have "sent_ids (track_sent mid st) = last_ten (sent_ids st @ [mid])"
    by (simp add: track_sent_def sent_ids_def)
  moreover have "length (recent_questions (state svc)) \<le> 10
        \<and> select_all draws svc = Inr (events, svc2)
      \<longrightarrow> recent_questions (state svc2)
            = last_ten (since_reset (recent_questions (state svc)) events)"
    using select_all_recent_bounded by blast
  ultimately show ?thesis
    using length_last_ten by blast
qed

theorem C6_recency_not_last_ten_counterexample:
  "map_sum id (\<lambda>(events, svc'). (events, recent_questions (state svc'),
                                  last_ten (map snd events)))
     (select_all four_draws fresh_service)
   = Inr ([(False, 0), (False, 1), (False, 2), (True, 0)], [0], [0, 1, 2, 0])
   \<and> buffers_bounded (state untracked_service)
   \<and> map_sum id (\<lambda>(svc', slept). length (sent_ids (state svc')))
        (run_iteration example_config
           (example_world (minutes 1) [question_message] (Inl ApiError)) untracked_service)
      = Inr 11"
  by code_simp

theorem C6_buffers_hold_ten_witness:
  "\<exists>svc2. select_all four_draws fresh_service
            = Inr ([(False, 0), (False, 1), (False, 2), (True, 0)], svc2)
       \<and> recent_questions (state svc2) = [0]
       \<and> (\<exists>svc0 svc'. init example_config example_csv ''Quiz Question'' False True
                          (example_disk Missing) = Inr svc0
              \<and> run_loop example_config [send_world, reply_world (Inr example_grade)]
                   svc0 = Inr svc'
              \<and> length (recent_questions (state svc')) \<le> 10
              \<and> length (sent_ids (state svc')) \<le> 10)"
proof -
  have "map_sum id fst (select_all four_draws fresh_service)
          = Inr [(False, 0), (False, 1), (False, 2), (True, 0)]"
    by code_simp
  then obtain svc2 where
    s: "select_all four_draws fresh_service
          = Inr ([(False, 0), (False, 1), (False, 2), (True, 0)], svc2)"
    by (cases "select_all four_draws fresh_service") auto
  have l: "length (recent_questions (state fresh_service)) \<le> 10"
    by (simp add: fresh_service_def default_state_def)
  have r0: "recent_questions (state fresh_service) = []"
    by (simp add: fresh_service_def default_state_def)
  have "\<not> isl (init example_config example_csv ''Quiz Question'' False True
                 (example_disk Missing))"
    by code_simp
  then obtain svc0 where
    i: "init example_config example_csv ''Quiz Question'' False True
          (example_disk Missing) = Inr svc0"
    by (cases "init example_config example_csv ''Quiz Question'' False True
                 (example_disk Missing)") auto
  have "\<not> isl (case init example_config example_csv ''Quiz Question'' False True
                      (example_disk Missing) of
                 Inl e \<Rightarrow> Inl e
               | Inr s \<Rightarrow> run_loop example_config
                            [send_world, reply_world (Inr example_grade)] s)"
    by code_simp
  then obtain svc' where
    r: "run_loop example_config [send_world, reply_world (Inr example_grade)] svc0 = Inr svc'"
    unfolding i
    by (cases "run_loop example_config [send_world, reply_world (Inr example_grade)] svc0") auto
  have d: "stored_state_bounded (example_disk Missing)"
    by (simp add: stored_state_bounded_def example_disk_def)
  note start = C6_buffers_hold_ten [where ?d0.0 = "example_disk Missing"
      and cfg = example_config and csv = example_csv and subject = "''Quiz Question''"
      and reset_state = False and ?svc0.0 = svc0]
  have b: "buffers_bounded (state svc0) \<and> sent_id_tracked (state svc0)
            \<and> stored_state_bounded (disk svc0)"
    using start d i by blast
  note loop = C6_buffers_hold_ten [where svc = svc0 and cfg = example_config
      and ws = "[send_world, reply_world (Inr example_grade)]" and svc' = svc']
  have after: "length (recent_questions (state svc')) \<le> 10
                \<and> length (sent_ids (state svc')) \<le> 10"
    using loop b r by blast
  note sel = C6_buffers_hold_ten [where svc = fresh_service
      and draws = four_draws and events = "[(False, 0), (False, 1), (False, 2), (True, 0)]"
      and ?svc2.0 = svc2]
  have "recent_questions (state svc2) = last_ten (since_reset (recent_questions (state fresh_service))
            [(False, 0), (False, 1), (False, 2), (True, 0)])"
    using sel s l by blast
  then have "recent_questions (state svc2) = [0]"
    using r0 by (simp add: since_reset_def last_ten_def)
  with s i r after show ?thesis by blast
qed

section \<open>Properties of the files\<close>

lemma log_extended_refl: "log_extended svc svc"
  by (simp add: log_extended_def)

lemma log_extended_trans:
  "log_extended a b \<Longrightarrow> log_extended b c \<Longrightarrow> log_extended a c"
  unfolding log_extended_def by (elim disjE conjE) (simp_all, metis prefix_order.order_trans)

lemma log_extended_same:
  "progress svc' = progress svc \<Longrightarrow> progress_file (disk svc') = progress_file (disk svc) \<Longrightarrow>
   log_extended svc svc'"
  by (simp add: log_extended_def)

lemma send_question_log:
  assumes "send_question w svc = Inr svc'"
  shows "progress svc' = progress svc \<and> progress_file (disk svc') = progress_file (disk svc)"
proof -
  from assms obtain q svc1 where
    sel: "select_random_question (randbelow w) (random_unit w) svc = Inr (q, svc1)"
    by (auto simp: send_question_def split: sum.splits prod.splits)
  from select_frame [OF sel] obtain r where
    svc1: "svc1 = svc\<lparr>state := (state svc)\<lparr>recent_questions := r\<rparr>\<rparr>"
    by blast
  from assms sel svc1 show ?thesis
    by (cases "send_question_reply w") (auto simp: send_question_def save_state_def Let_def)
qed

lemma quiz_check_frame:
  "progress (snd (quiz_check_for_response cfg w svc)) = progress svc
   \<and> disk (snd (quiz_check_for_response cfg w svc)) = disk svc
   \<and> scores (snd (quiz_check_for_response cfg w svc)) = scores svc"
  by (simp add: quiz_check_for_response_def Let_def split: sum.splits option.splits)

lemma graded_log:
  assumes "graded w r question answer grade svc = (svc', b)"
  shows "(b \<longrightarrow> prefix (progress svc) (progress svc')
               \<and> progress_file (disk svc') = Content (progress svc'))
       \<and> (\<not> b \<longrightarrow> progress svc' = progress svc
               \<and> progress_file (disk svc') = progress_file (disk svc))"
  using assms
  by (cases "send_feedback_reply w")
     (auto simp: graded_def Let_def record_score_saved_def save_scores_def save_state_def
        record_progress_def save_progress_def split: option.splits)

lemma grade_and_send_feedback_log:
  "log_extended svc (grade_and_send_feedback w r svc)"
proof (cases "\<not> truthy (current_question (state svc)) \<or> \<not> truthy (current_answer (state svc))")
  case True
  then show ?thesis by (auto simp: grade_and_send_feedback_def log_extended_def)
next
  case False
  show ?thesis
  proof (cases "grade_reply w")
    case (Inl e)
    with False show ?thesis
      by (auto simp: grade_and_send_feedback_def abandon_round_def save_state_def log_extended_def)
  next
    case (Inr grade)
    obtain svc1 b where g: "graded w r (the (current_question (state svc)))
                     (the (current_answer (state svc))) grade svc = (svc1, b)"
      by (cases "graded w r (the (current_question (state svc)))
                     (the (current_answer (state svc))) grade svc")
    from graded_log [OF g] False Inr g show ?thesis
      by (cases b)
         (auto simp: grade_and_send_feedback_def finish_round_def abandon_round_def
            save_state_def log_extended_def)
  qed
qed

lemma run_iteration_log:
  assumes "run_iteration cfg w svc = Inr (svc', slept)"
  shows "log_extended svc svc'"
proof -
  define first where "first = (if \<not> waiting_for_response (state svc)
               \<and> should_send_new_question cfg (now_send_check w) svc
            then send_question w svc else Inr svc)"
  from assms obtain svc1 where f: "first = Inr svc1"
    unfolding run_iteration_def first_def [symmetric] by (cases first) auto
  have l1: "log_extended svc svc1"
    using f send_question_log [of w svc svc1]
    by (auto simp: first_def log_extended_def split: if_splits)
  obtain resp svc2 where c: "quiz_check_for_response cfg w svc1 = (resp, svc2)"
    by (cases "quiz_check_for_response cfg w svc1")
  have l2: "log_extended svc1 svc2"
    using quiz_check_frame [of cfg w svc1] c by (simp add: log_extended_def)
  from assms f c have
    "svc' = give_up_waiting svc1 \<or> svc' = svc1 \<or> svc' = svc2
     \<or> svc' = grade_and_send_feedback w (the resp) svc2"
    unfolding run_iteration_def first_def [symmetric]
    by (auto split: if_splits)
  moreover have "log_extended svc1 (give_up_waiting svc1)"
    by (simp add: give_up_waiting_def save_state_def log_extended_def)
  moreover have "log_extended svc1 (grade_and_send_feedback w (the resp) svc2)"
    using l2 grade_and_send_feedback_log by (rule log_extended_trans)
  ultimately have "log_extended svc1 svc'"
    using l2 log_extended_refl by auto
  with l1 show ?thesis by (rule log_extended_trans)
qed

lemma run_loop_log:
  "run_loop cfg ws svc = Inr svc' \<Longrightarrow> log_extended svc svc'"
proof (induction ws arbitrary: svc)
  case Nil
  then show ?case by (simp add: log_extended_refl)
next
  case (Cons w ws)
  from Cons.prems obtain svc1 slept where
    step: "run_iteration cfg w svc = Inr (svc1, slept)" and rest: "run_loop cfg ws svc1 = Inr svc'"
    by (auto split: sum.splits prod.splits)
  from run_iteration_log [OF step] Cons.IH [OF rest] show ?case
    by (rule log_extended_trans)
qed

lemma init_files:
  assumes "init cfg csv subject reset_state reset_waiting d0 = Inr svc0"
  shows "progress_file (disk svc0) = progress_file d0 \<and> progress svc0 = load_progress d0
     \<and> (reset_state \<longrightarrow> state_file (disk svc0) = Missing \<and> scores_file (disk svc0) = Missing)
     \<and> (\<not> reset_state \<longrightarrow> disk svc0 = d0)"
  using assms
  by (auto simp: init_def load_questions_def reset_files_def load_progress_def Let_def
      split: questions_csv.splits if_splits)

text \<open>
  C8. Start-up leaves the history file as it found it, and with the reset flag it
  removes the state file and the score file. A history file that holds a history is only
  ever extended by the loop, and a missing one stays missing or comes to hold a history.
\<close>

theorem C8_progress_log_kept:
  assumes "init cfg csv subject reset_state reset_waiting d0 = Inr svc0"
    and "run_loop cfg ws svc0 = Inr svc"
  shows "progress_file (disk svc0) = progress_file d0
     \<and> (reset_state \<longrightarrow> state_file (disk svc0) = Missing \<and> scores_file (disk svc0) = Missing)
     \<and> (\<forall>history. progress_file d0 = Content history
           \<longrightarrow> (\<exists>entries. progress_file (disk svc) = Content (history @ entries)))
     \<and> (progress_file d0 = Missing
           \<longrightarrow> progress_file (disk svc) = Missing
               \<or> (\<exists>entries. progress_file (disk svc) = Content entries))"
proof -
  note i = init_files [OF assms(1)]
  note l = run_loop_log [OF assms(2)]
  have a: "\<forall>history. progress_file d0 = Content history
           \<longrightarrow> (\<exists>entries. progress_file (disk svc) = Content (history @ entries))"
  proof (intro allI impI)
    fix history
    assume h: "progress_file d0 = Content history"
    then have "progress svc0 = history" using i by (simp add: load_progress_def)
    with l h i show "\<exists>entries. progress_file (disk svc) = Content (history @ entries)"
      unfolding log_extended_def by (auto simp: prefix_def)
  qed
  have b: "progress_file d0 = Missing
           \<longrightarrow> progress_file (disk svc) = Missing
               \<or> (\<exists>entries. progress_file (disk svc) = Content entries)"
    using l i unfolding log_extended_def by auto
  from i a b show ?thesis by blast
qed

theorem C8_progress_log_kept_witness:
  "\<exists>svc0 svc. init example_config example_csv ''Quiz Question'' True True
                 (example_disk (Content [old_entry])) = Inr svc0
        \<and> run_loop example_config [send_world, reply_world (Inr example_grade)] svc0 = Inr svc
        \<and> state_file (disk svc0) = Missing \<and> scores_file (disk svc0) = Missing
        \<and> progress_file (disk svc0) = Content [old_entry]
        \<and> (\<exists>entries. progress_file (disk svc) = Content ([old_entry] @ entries))"
proof -
  have "\<not> isl (init example_config example_csv ''Quiz Question'' True True
                 (example_disk (Content [old_entry])))"
    by code_simp
  then obtain svc0 where
    i: "init example_config example_csv ''Quiz Question'' True True
          (example_disk (Content [old_entry])) = Inr svc0"
    by (cases "init example_config example_csv ''Quiz Question'' True True
                 (example_disk (Content [old_entry]))") auto
  have "\<not> isl (case init example_config example_csv ''Quiz Question'' True True
                      (example_disk (Content [old_entry])) of
                 Inl e \<Rightarrow> Inl e
               | Inr s \<Rightarrow> run_loop example_config
                            [send_world, reply_world (Inr example_grade)] s)"
    by code_simp
  then obtain svc where
    r: "run_loop example_config [send_world, reply_world (Inr example_grade)] svc0 = Inr svc"
    unfolding i
    by (cases "run_loop example_config [send_world, reply_world (Inr example_grade)] svc0") auto
  have p: "progress_file (example_disk (Content [old_entry])) = Content [old_entry]"
    by (simp add: example_disk_def)
  from C8_progress_log_kept [OF i r] p i r show ?thesis by auto
qed

theorem C8_unparsable_log_overwritten_counterexample:
  "(case init example_config example_csv ''Quiz Question'' False True
           (example_disk Unparsable) of
      Inl e \<Rightarrow> None
    | Inr svc0 \<Rightarrow>
        (case run_loop example_config [send_world, reply_world (Inr example_grade)] svc0 of
           Inl e \<Rightarrow> None
         | Inr svc \<Rightarrow>
             Some (progress_file (disk svc0) = Unparsable,
                   case progress_file (disk svc) of
                     Content entries \<Rightarrow> map entry_user_response entries
                   | Unparsable \<Rightarrow> []
                   | Missing \<Rightarrow> [])))
   = Some (True, [''Dark matter halos''])"
  by code_simp

section \<open>Properties of the loop\<close>

text \<open>
  C7. An iteration that finds the service waiting, with the last question sent at least
  twice the question interval ago, abandons the wait: the flag is cleared, the sent
  message id is cleared, the state is saved, the iteration ends in \<^verbatim>\<open>continue\<close>
  rather than in the sleep, and the next iteration finds that a question should be sent
  whatever its clock says.
\<close>

theorem C7_timeout_abandons_wait:
  assumes "waiting_for_response (state svc)"
    and "last_question_time (state svc) = Some t"
    and "now_timeout w - t \<ge> minutes (question_interval_minutes cfg * 2)"
  shows "run_iteration cfg w svc = Inr (give_up_waiting svc, False)
     \<and> \<not> waiting_for_response (state (give_up_waiting svc))
     \<and> sent_message_id (state (give_up_waiting svc)) = None
     \<and> state_file (disk (give_up_waiting svc)) = Content (state (give_up_waiting svc))
     \<and> (\<forall>now. should_send_new_question cfg now (give_up_waiting svc))"
  using assms
  by (simp add: run_iteration_def timed_out_def give_up_waiting_def save_state_def
      should_send_new_question_def truthy_def)

theorem C7_timeout_abandons_wait_witness:
  "run_iteration example_config (example_world (minutes 21) [] (Inl ApiError)) waiting_service
     = Inr (give_up_waiting waiting_service, False)
   \<and> waiting_for_response (state waiting_service)
   \<and> \<not> waiting_for_response (state (give_up_waiting waiting_service))
   \<and> sent_message_id (state (give_up_waiting waiting_service)) = None"
proof -
  have a: "waiting_for_response (state waiting_service)"
    by (simp add: waiting_service_def)
  have b: "last_question_time (state waiting_service) = Some 0"
    by (simp add: waiting_service_def)
  have c: "now_timeout (example_world (minutes 21) [] (Inl ApiError)) - 0
            \<ge> minutes (question_interval_minutes example_config * 2)"
    by (simp add: example_world_def example_config_def minutes_def)
  from C7_timeout_abandons_wait [OF a b c] a show ?thesis by simp
qed

text \<open>
  C3. When a reply has been found for the question that is out and the grader raises,
  the iteration catches the exception: it ends normally, no score is recorded (the
  ledger and its file are as before), no history entry is written, and the service is no
  longer waiting.
\<close>

theorem C3_grader_exception_skips_round:
  assumes "waiting_for_response (state svc)"
    and "\<not> timed_out cfg (now_timeout w) svc"
    and "fst (quiz_check_for_response cfg w svc) = Some response" and "response \<noteq> []"
    and "truthy (current_question (state svc))" and "truthy (current_answer (state svc))"
    and "grade_reply w = Inl e"
  shows "\<exists>svc'. run_iteration cfg w svc = Inr (svc', True)
           \<and> scores svc' = scores svc
           \<and> scores_file (disk svc') = scores_file (disk svc)
           \<and> progress svc' = progress svc
           \<and> progress_file (disk svc') = progress_file (disk svc)
           \<and> \<not> waiting_for_response (state svc')"
proof -
  obtain svc2 where c: "quiz_check_for_response cfg w svc = (Some response, svc2)"
    using assms(3) by (cases "quiz_check_for_response cfg w svc") auto
  have frame: "progress svc2 = progress svc" "disk svc2 = disk svc" "scores svc2 = scores svc"
    using quiz_check_frame [of cfg w svc] c by simp_all
  have cur: "current_question (state svc2) = current_question (state svc)"
    "current_answer (state svc2) = current_answer (state svc)"
    using c
    by (auto simp: quiz_check_for_response_def Let_def split: if_splits sum.splits option.splits)
  have g: "grade_and_send_feedback w response svc2 = abandon_round svc2"
    using assms(5,6,7) cur by (simp add: grade_and_send_feedback_def)
  have run: "run_iteration cfg w svc = Inr (abandon_round svc2, True)"
    using assms(1,2,4) c g by (simp add: run_iteration_def truthy_def)
  show ?thesis
    unfolding run using frame
    by (simp add: abandon_round_def save_state_def)
qed

theorem C3_grader_exception_skips_round_witness:
  "\<exists>svc'. run_iteration example_config (reply_world (Inl ApiError)) waiting_service
              = Inr (svc', True)
         \<and> scores svc' = scores waiting_service
         \<and> progress svc' = progress waiting_service
         \<and> \<not> waiting_for_response (state svc')"
proof -
  have a: "waiting_for_response (state waiting_service)"
    by (simp add: waiting_service_def)
  have b: "\<not> timed_out example_config (now_timeout (reply_world (Inl ApiError))) waiting_service"
    by (simp add: timed_out_def waiting_service_def reply_world_def example_world_def
        example_config_def minutes_def)
  have c: "fst (quiz_check_for_response example_config (reply_world (Inl ApiError))
             waiting_service) = Some ''Dark matter halos''"
    by code_simp
  have d: "''Dark matter halos'' \<noteq> []" by simp
  have e: "truthy (current_question (state waiting_service))"
    "truthy (current_answer (state waiting_service))"
    by (simp_all add: truthy_def waiting_service_def)
  have f: "grade_reply (reply_world (Inl ApiError)) = Inl ApiError"
    by (simp add: reply_world_def example_world_def)
  from C3_grader_exception_skips_round [OF a b c d e f] show ?thesis by blast
qed

section \<open>Properties of loading the questions\<close>

lemma list_max_ge: "xs \<noteq> [] \<Longrightarrow> (list_max xs \<ge> n) = (\<exists>i \<in> set xs. i \<ge> n)"
  by (induction xs rule: list_max.induct) (auto simp: max_def)

lemma clear_stale_eq:
  "clear_stale n st =
     (if \<exists>i \<in> set (recent_questions st). i \<ge> int n
      then st\<lparr>recent_questions := [], current_question_idx := None,
              current_question := None, current_answer := None\<rparr>
      else st)"
proof (cases "recent_questions st = []")
  case True
  then show ?thesis by (simp add: clear_stale_def)
next
  case False
  then show ?thesis by (simp add: clear_stale_def list_max_ge)
qed

text \<open>
  C9. Loading a table that has both columns never fails, and it clears the recent
  buffer, the current question index, the current question and the current answer exactly
  when the recent buffer holds an index that is not below the number of rows; otherwise
  the state is left as it was.
\<close>

theorem C9_stale_recent_ids_cleared:
  assumes "''question'' \<in> set (normalize_columns cols)"
    and "''answer'' \<in> set (normalize_columns cols)"
  shows "\<exists>svc'. load_questions (CsvTable cols rs) svc = Inr svc'
           \<and> questions_df svc' = rs
           \<and> state svc' =
               (if \<exists>i \<in> set (recent_questions (state svc)). i \<ge> int (length rs)
                then (state svc)\<lparr>recent_questions := [], current_question_idx := None,
                        current_question := None, current_answer := None\<rparr>
                else state svc)"
  using assms by (simp add: load_questions_def clear_stale_eq)

theorem C9_stale_recent_ids_cleared_witness:
  "\<exists>svc'. load_questions example_csv (stale_service [0, 50]) = Inr svc'
      \<and> recent_questions (state svc') = [] \<and> current_question_idx (state svc') = None"
proof -
  have a: "''question'' \<in> set (normalize_columns [''questions'', ''answers''])"
    "''answer'' \<in> set (normalize_columns [''questions'', ''answers''])"
    by (simp_all add: normalize_columns_def)
  from C9_stale_recent_ids_cleared [OF a, of example_bank "stale_service [0, 50]"]
  show ?thesis
    by (auto simp: example_csv_def stale_service_def example_bank_def)
qed

theorem C9_stale_current_id_kept_counterexample:
  "map_sum id (\<lambda>svc'. (current_question_idx (state svc'), recent_questions (state svc'),
                        length (questions_df svc')))
     (load_questions shrunk_csv (stale_service [0, 1, 2, 3, 4, 5, 6, 7, 8, 9]))
   = Inr (Some 50, [0, 1, 2, 3, 4, 5, 6, 7, 8, 9], 12)"
  by code_simp

end
